theory Spec2Isabelle
  imports Complex_Main
begin

section \<open>JavaScript strings and truthiness\<close>

text \<open>
  The routes test request fields with \<^verbatim>\<open>!x\<close> and \<^verbatim>\<open>x || y\<close>. A field of a
  JSON body or of a query string is either absent or a string, and the only falsy
  string is the empty one. \<open>truthy\<close> returns the string when the JavaScript test
  \<^verbatim>\<open>if (x)\<close> succeeds.
\<close>

definition truthy :: "string option \<Rightarrow> string option" where
  "truthy x = (case x of None \<Rightarrow> None | Some s \<Rightarrow> (if s = [] then None else Some s))"

text \<open>\<^verbatim>\<open>s.startsWith(p)\<close>\<close>

definition startsWith :: "string \<Rightarrow> string \<Rightarrow> bool" where
  "startsWith s p = (take (length p) s = p)"

text \<open>\<^verbatim>\<open>s.includes(sub)\<close>: \<open>sub\<close> occurs in \<open>s\<close> at some position.\<close>

fun includes_str :: "string \<Rightarrow> string \<Rightarrow> bool" where
  "includes_str [] sub = (sub = [])"
| "includes_str (c # cs) sub = (startsWith (c # cs) sub \<or> includes_str cs sub)"

section \<open>JSON values\<close>

text \<open>
  A JavaScript number: a double is NaN, an infinity, or a rational; the two zeros are
  one value here.
\<close>

datatype js_number = NaN | PosInfinity | NegInfinity | Finite rat

text \<open>What \<^verbatim>\<open>JSON.parse\<close> returns. An object is the map from its keys to its members.\<close>

datatype json_value =
    JNull
  | JBool bool
  | JNumber js_number
  | JString string
  | JArray "json_value list"
  | JObject "string \<Rightarrow> json_value option"

text \<open>
  \<^verbatim>\<open>await request.json()\<close>: the body does not parse and the call throws an error with
  some message, or it parses to a JSON value. The routes cast that value to their
  request type without a check.
\<close>

datatype request_body = Unparsable string | Parsed json_value

text \<open>
  \<^verbatim>\<open>const { k } = v\<close> for a value other than null and a key that is no property of
  strings, numbers, booleans or arrays: the member of an object, and undefined (\<open>None\<close>)
  otherwise.
\<close>

definition member :: "json_value \<Rightarrow> string \<Rightarrow> json_value option" where
  "member v k = (case v of JObject m \<Rightarrow> m k | _ \<Rightarrow> None)"

text \<open>The values for which \<^verbatim>\<open>if (x)\<close> succeeds.\<close>

fun js_truthy :: "json_value \<Rightarrow> bool" where
  "js_truthy JNull = False"
| "js_truthy (JBool b) = b"
| "js_truthy (JNumber n) = (n \<noteq> NaN \<and> n \<noteq> Finite 0)"
| "js_truthy (JString s) = (s \<noteq> [])"
| "js_truthy (JArray xs) = True"
| "js_truthy (JObject m) = True"

definition truthy_json :: "json_value option \<Rightarrow> json_value option" where
  "truthy_json x = (case x of None \<Rightarrow> None | Some v \<Rightarrow> (if js_truthy v then Some v else None))"

text \<open>The two TypeErrors a request body can cause; the engine words their messages.\<close>

datatype type_error = DestructureNull | NotAFunction

section \<open>The AwsConnection table\<close>

text \<open>
  Modelled from the spec: the Prisma schema of the table the routes reach through
  \<^verbatim>\<open>prisma.awsConnection\<close> is not among the sources. A row has the columns of the
  specification's Connection that the routes read or write (\<^verbatim>\<open>updatedAt\<close>, which no
  route reads or sets, is left out). \<open>roleArn = None\<close> is the SQL NULL of a pending
  connection. The field \<open>id_conn\<close> is the column \<^verbatim>\<open>id\<close> and \<open>name_conn\<close> the
  column \<^verbatim>\<open>name\<close>. The values the schema's defaults give a new row, its id and its
  creation time, are taken from the request's world below.
\<close>

record connection =
  id_conn :: string
  userId :: string
  externalId :: string
  roleArn :: "string option"
  name_conn :: string
  createdAt :: nat

text \<open>The table is the list of its rows, in insertion order.\<close>

type_synonym store = "connection list"

text \<open>
  \<^verbatim>\<open>findFirst({ where })\<close> on a filter that names a key of the table: the first row
  that satisfies the filter, if any.
\<close>

definition findFirst :: "(connection \<Rightarrow> bool) \<Rightarrow> store \<Rightarrow> connection option" where
  "findFirst P st = find P st"

text \<open>
  \<^verbatim>\<open>orderBy: { createdAt: "desc" }\<close>: the row with the greatest \<open>createdAt\<close>; among
  rows created at the same instant the one inserted first.
\<close>

fun most_recent :: "connection list \<Rightarrow> connection option" where
  "most_recent [] = None"
| "most_recent (c # cs) =
     (case most_recent cs of
        None \<Rightarrow> Some c
      | Some d \<Rightarrow> (if createdAt c < createdAt d then Some d else Some c))"

definition findFirst_desc :: "(connection \<Rightarrow> bool) \<Rightarrow> store \<Rightarrow> connection option" where
  "findFirst_desc P st = most_recent (filter P st)"

text \<open>
  The migration keeps three keys: the primary key \<^verbatim>\<open>id\<close>, the unique index on
  \<^verbatim>\<open>(userId, externalId)\<close> and the unique index on \<^verbatim>\<open>(userId, roleArn)\<close>, where
  NULL role ARNs never collide. \<open>clashes c d\<close> holds when row \<open>c\<close> cannot be stored
  beside row \<open>d\<close>.
\<close>

definition clashes :: "connection \<Rightarrow> connection \<Rightarrow> bool" where
  "clashes c d =
     (id_conn d = id_conn c
      \<or> (userId d = userId c \<and> externalId d = externalId c)
      \<or> (userId d = userId c \<and> roleArn c \<noteq> None \<and> roleArn d = roleArn c))"

text \<open>
  \<^verbatim>\<open>create({ data })\<close> appends the row, or throws when a key is taken. A thrown
  error is \<open>Inl\<close> of its message.
\<close>

definition create_conn :: "store \<Rightarrow> connection \<Rightarrow> string + (connection \<times> store)" where
  "create_conn st c =
     (if list_ex (clashes c) st then Inl ''Unique constraint failed''
      else Inr (c, st @ [c]))"

text \<open>
  \<^verbatim>\<open>update({ where: { id }, data })\<close> rewrites the row with that id, or throws when
  there is none or when the new values take a key of another row.
\<close>

definition update_conn ::
  "store \<Rightarrow> string \<Rightarrow> (connection \<Rightarrow> connection) \<Rightarrow> string + (connection \<times> store)" where
  "update_conn st i f =
     (case find (\<lambda>c. id_conn c = i) st of
        None \<Rightarrow> Inl ''Record to update not found''
      | Some c \<Rightarrow>
          (if list_ex (clashes (f c)) (filter (\<lambda>d. id_conn d \<noteq> i) st)
           then Inl ''Unique constraint failed''
           else Inr (f c, map (\<lambda>d. if id_conn d = i then f d else d) st)))"

text \<open>\<^verbatim>\<open>delete({ where: { id } })\<close> removes the row with that id, or throws.\<close>

definition delete_conn :: "store \<Rightarrow> string \<Rightarrow> string + (connection \<times> store)" where
  "delete_conn st i =
     (case find (\<lambda>c. id_conn c = i) st of
        None \<Rightarrow> Inl ''Record to delete does not exist''
      | Some c \<Rightarrow> Inr (c, filter (\<lambda>d. id_conn d \<noteq> i) st))"

section \<open>The AWS library\<close>

text \<open>
  The temporary credentials \<^verbatim>\<open>assumeRole\<close> returns. \<open>expiration\<close> is a point in
  time.
\<close>

record credentials =
  accessKeyId :: string
  secretAccessKey :: string
  sessionToken :: string
  expiration :: nat

text \<open>The input of \<^verbatim>\<open>AssumeRoleCommand\<close>. The objects route can pass a NULL role ARN.\<close>

record assume_role_input =
  RoleArn :: "string option"
  RoleSessionName :: string
  ExternalId :: string
  DurationSeconds :: nat

text \<open>What the S3 client returns for \<^verbatim>\<open>ListBucketsCommand\<close>; every member is optional.\<close>

record bucket_entry =
  Name :: "string option"
  CreationDate :: "nat option"

record list_buckets_output =
  Buckets :: "bucket_entry list option"

record bucket =
  bucket_name :: "string option"
  creationDate :: "nat option"

text \<open>
  The input and the output of \<^verbatim>\<open>ListObjectsV2Command\<close>. \<open>MaxKeys\<close> is what
  \<^verbatim>\<open>parseInt\<close> returned, which may be NaN.
\<close>

record list_objects_input =
  Bucket :: string
  Prefix :: "string option"
  MaxKeys :: "js_number option"

record object_entry =
  Key :: "string option"
  Size :: "nat option"
  LastModified :: "nat option"
  ETag :: "string option"

record list_objects_output =
  Contents :: "object_entry list option"
  IsTruncated :: "bool option"
  NextContinuationToken :: "string option"

record s3_object =
  object_key :: "string option"
  object_size :: "nat option"
  lastModified :: "nat option"
  etag :: "string option"

record object_listing =
  objects :: "s3_object list"
  isTruncated :: bool
  nextContinuationToken :: "string option"

text \<open>
  The input of \<^verbatim>\<open>PutObjectCommand\<close>: the members of the request body as they came.
\<close>

record put_object_input =
  put_Bucket :: json_value
  put_Key :: json_value
  ContentType :: "json_value option"

text \<open>
  Everything a request takes from outside the table: the session, the process
  environment, the clock, the values the database and the random generator produce,
  and the answers of the provider. A provider call that throws is \<open>Inl\<close> of the
  error's message.

  Four fields stand for what the engine and the ORM do, none of which is among the
  sources, so that every theorem holds whatever they do:
  \<^item> \<open>type_error_message\<close>: the message of a TypeError;
  \<^item> \<open>parseInt10\<close>: \<^verbatim>\<open>parseInt(s, 10)\<close>;
  \<^item> \<open>prisma_id_filter\<close>: what \<^verbatim>\<open>where: { id: v }\<close> means for a value \<open>v\<close> that is not a
    string: the query is refused with an error, or \<open>v\<close> is a filter on the id column;
  \<^item> \<open>prisma_name_data\<close>: what \<^verbatim>\<open>data: { name: v }\<close> means for a value \<open>v\<close> that is not
    a string: the update is refused with an error, or \<open>v\<close> sets a name.
\<close>

record world =
  session_user :: "string option"
  new_id :: string
  random_externalId :: string
  now :: nat
  date_now :: string
  AWS_ACCESS_KEY_ID :: "string option"
  AWS_SECRET_ACCESS_KEY :: "string option"
  AWS_REGION :: "string option"
  sts_send :: "assume_role_input \<Rightarrow> string + credentials option"
  s3_list_buckets :: "credentials \<Rightarrow> string + list_buckets_output"
  s3_list_objects :: "credentials \<Rightarrow> list_objects_input \<Rightarrow> string + list_objects_output"
  get_signed_url :: "credentials \<Rightarrow> put_object_input \<Rightarrow> json_value \<Rightarrow> string + string"
  type_error_message :: "type_error \<Rightarrow> string"
  parseInt10 :: "string \<Rightarrow> js_number"
  prisma_id_filter :: "json_value \<Rightarrow> string + (string \<Rightarrow> bool)"
  prisma_name_data :: "json_value \<Rightarrow> string + string"

text \<open>The calls a request makes to the provider, in order.\<close>

datatype event =
    StsAssumeRole assume_role_input
  | S3ListBuckets credentials
  | S3ListObjects credentials list_objects_input
  | S3Presign credentials put_object_input json_value

definition getBaseCredentials :: "world \<Rightarrow> string + (string \<times> string \<times> string)" where
  "getBaseCredentials w =
     (case truthy (AWS_ACCESS_KEY_ID w) of
        None \<Rightarrow> Inl ''AWS_ACCESS_KEY_ID and AWS_SECRET_ACCESS_KEY must be set in environment variables''
      | Some a \<Rightarrow>
          (case truthy (AWS_SECRET_ACCESS_KEY w) of
             None \<Rightarrow> Inl ''AWS_ACCESS_KEY_ID and AWS_SECRET_ACCESS_KEY must be set in environment variables''
           | Some k \<Rightarrow>
               Inr (a, k, (case truthy (AWS_REGION w) of None \<Rightarrow> ''us-east-1'' | Some r \<Rightarrow> r))))"

text \<open>
  \<^verbatim>\<open>assumeRole(roleArn, externalId)\<close>: the base credentials are read before the
  \<^verbatim>\<open>try\<close>, so their absence is thrown as it is; an error of the call, and a response
  without credentials, are thrown again behind the prefix.
\<close>

definition assumeRole ::
  "world \<Rightarrow> string option \<Rightarrow> string \<Rightarrow> (string + credentials) \<times> event list" where
  "assumeRole w role ext =
     (case getBaseCredentials w of
        Inl msg \<Rightarrow> (Inl msg, [])
      | Inr base \<Rightarrow>
          (let command = \<lparr>RoleArn = role, RoleSessionName = ''s3-helper-'' @ date_now w,
                          ExternalId = ext, DurationSeconds = 3600\<rparr>
           in (case sts_send w command of
                 Inl msg \<Rightarrow> Inl (''Failed to assume role: '' @ msg)
               | Inr None \<Rightarrow>
                   Inl (''Failed to assume role: '' @ ''Failed to assume role: No credentials returned'')
               | Inr (Some c) \<Rightarrow> Inr c,
               [StsAssumeRole command])))"

text \<open>\<^verbatim>\<open>listBuckets(credentials)\<close>\<close>

definition listBuckets :: "world \<Rightarrow> credentials \<Rightarrow> (string + bucket list) \<times> event list" where
  "listBuckets w creds =
     (case s3_list_buckets w creds of
        Inl msg \<Rightarrow> Inl (''Failed to list buckets: '' @ msg)
      | Inr response \<Rightarrow>
          Inr (case Buckets response of
                 None \<Rightarrow> []
               | Some bs \<Rightarrow> map (\<lambda>b. \<lparr>bucket_name = Name b, creationDate = CreationDate b\<rparr>) bs),
      [S3ListBuckets creds])"

text \<open>\<^verbatim>\<open>listObjects(bucket, prefix, maxKeys, credentials)\<close>\<close>

definition listObjects ::
  "world \<Rightarrow> string \<Rightarrow> string option \<Rightarrow> js_number option \<Rightarrow> credentials option
     \<Rightarrow> (string + object_listing) \<times> event list" where
  "listObjects w bkt prefix maxKeys credentials =
     (case credentials of
        None \<Rightarrow> (Inl ''Credentials are required to list objects'', [])
      | Some creds \<Rightarrow>
          (let command = \<lparr>Bucket = bkt, Prefix = prefix, MaxKeys = maxKeys\<rparr>
           in (case s3_list_objects w creds command of
                 Inl msg \<Rightarrow> Inl (''Failed to list objects: '' @ msg)
               | Inr response \<Rightarrow>
                   Inr \<lparr>objects =
                          (case Contents response of
                             None \<Rightarrow> []
                           | Some os \<Rightarrow>
                               map (\<lambda>ob. \<lparr>object_key = Key ob, object_size = Size ob,
                                           lastModified = LastModified ob, etag = ETag ob\<rparr>) os),
                        isTruncated = (case IsTruncated response of None \<Rightarrow> False | Some t \<Rightarrow> t),
                        nextContinuationToken = NextContinuationToken response\<rparr>,
               [S3ListObjects creds command])))"

text \<open>\<^verbatim>\<open>generatePresignedUploadUrl(bucket, key, contentType, credentials, expiresIn)\<close>\<close>

definition generatePresignedUploadUrl ::
  "world \<Rightarrow> json_value \<Rightarrow> json_value \<Rightarrow> json_value option \<Rightarrow> credentials option
     \<Rightarrow> json_value \<Rightarrow> (string + string) \<times> event list" where
  "generatePresignedUploadUrl w bkt k contentType credentials expiresIn =
     (case credentials of
        None \<Rightarrow> (Inl ''Credentials are required to generate presigned URL'', [])
      | Some creds \<Rightarrow>
          (let putCommand = \<lparr>put_Bucket = bkt, put_Key = k, ContentType = contentType\<rparr>
           in (case get_signed_url w creds putCommand expiresIn of
                 Inl msg \<Rightarrow> Inl (''Failed to generate presigned URL: '' @ msg)
               | Inr url \<Rightarrow> Inr url,
               [S3Presign creds putCommand expiresIn])))"

section \<open>Responses\<close>

text \<open>The connection object of the verify response.\<close>

record public_connection =
  pc_id :: string
  pc_roleArn :: string
  pc_name :: string
  pc_createdAt :: nat

text \<open>
  The JSON bodies the routes send: an error with optional details, and one success
  body per route (each also carries \<^verbatim>\<open>success: true\<close>).
\<close>

datatype payload =
    ErrorBody string "string option"
  | BootstrapBody string string
  | VerifyBody public_connection string
  | BucketsBody "bucket list" string string string
  | ObjectsBody string string "s3_object list" bool "string option" string string
  | PresignBody string json_value json_value json_value

record response =
  status :: nat
  body :: payload

definition json :: "nat \<Rightarrow> payload \<Rightarrow> response" where
  "json code b = \<lparr>status = code, body = b\<rparr>"

text \<open>What a request leaves behind: its response, the table, and its provider calls.\<close>

type_synonym outcome = "response \<times> store \<times> event list"

section \<open>GET /api/aws/bootstrap\<close>

text \<open>The row both routes create for a user without a pending connection.\<close>

definition pending_row :: "world \<Rightarrow> string \<Rightarrow> connection" where
  "pending_row w uid =
     \<lparr>id_conn = new_id w, userId = uid, externalId = random_externalId w,
      roleArn = None, name_conn = ''Pending AWS connection'', createdAt = now w\<rparr>"

definition bootstrap_GET :: "world \<Rightarrow> store \<Rightarrow> outcome" where
  "bootstrap_GET w st =
     (case truthy (session_user w) of
        None \<Rightarrow> (json 401 (ErrorBody ''Unauthorized'' None), st, [])
      | Some uid \<Rightarrow>
          (case findFirst_desc (\<lambda>c. userId c = uid \<and> roleArn c = None) st of
             Some c \<Rightarrow> (json 200 (BootstrapBody (id_conn c) (externalId c)), st, [])
           | None \<Rightarrow>
               (case create_conn st (pending_row w uid) of
                  Inl msg \<Rightarrow>
                    (json 500 (ErrorBody ''Failed to bootstrap AWS connection'' (Some msg)), st, [])
                | Inr (c, st') \<Rightarrow>
                    (json 200 (BootstrapBody (id_conn c) (externalId c)), st', []))))"

section \<open>Looking a connection up by a submitted id\<close>

text \<open>
  \<^verbatim>\<open>findFirst({ where: { id: v, userId } })\<close> for a truthy value \<open>v\<close> taken from a
  request: a string is compared with the id column; for any other value the ORM
  decides. Whatever the condition on the id, the row must belong to the user.
\<close>

definition where_id :: "world \<Rightarrow> json_value \<Rightarrow> string + (string \<Rightarrow> bool)" where
  "where_id w v = (case v of JString s \<Rightarrow> Inr (\<lambda>i. i = s) | _ \<Rightarrow> prisma_id_filter w v)"

definition find_by_id :: "world \<Rightarrow> string \<Rightarrow> json_value \<Rightarrow> store \<Rightarrow> string + connection option" where
  "find_by_id w uid v st =
     (case where_id w v of
        Inl msg \<Rightarrow> Inl msg
      | Inr p \<Rightarrow> Inr (findFirst (\<lambda>c. p (id_conn c) \<and> userId c = uid) st))"

section \<open>POST /api/aws/verify\<close>

text \<open>
  The route as it stands now (the second text of \<^verbatim>\<open>verify/route.ts\<close>). It reads the
  members \<^verbatim>\<open>roleArn\<close>, \<^verbatim>\<open>name\<close> and \<^verbatim>\<open>connectionId\<close> of the parsed body, of
  whatever JSON type they are.
\<close>

text \<open>
  The row whose External ID is used: the user's row with the submitted id, else the
  user's most recent pending row, else a new pending row.
\<close>

definition resolve_target ::
  "world \<Rightarrow> string \<Rightarrow> json_value option \<Rightarrow> store \<Rightarrow> string + (connection \<times> store)" where
  "resolve_target w uid connectionId st =
     (case (case truthy_json connectionId of
              None \<Rightarrow> Inr None
            | Some v \<Rightarrow> find_by_id w uid v st) of
        Inl msg \<Rightarrow> Inl msg
      | Inr (Some c) \<Rightarrow> Inr (c, st)
      | Inr None \<Rightarrow>
          (case findFirst_desc (\<lambda>c. userId c = uid \<and> roleArn c = None) st of
             Some c \<Rightarrow> Inr (c, st)
           | None \<Rightarrow> create_conn st (pending_row w uid)))"

definition verified_body :: "connection \<Rightarrow> payload" where
  "verified_body c =
     VerifyBody
       \<lparr>pc_id = id_conn c, pc_roleArn = (case roleArn c of None \<Rightarrow> [] | Some r \<Rightarrow> r),
        pc_name = name_conn c, pc_createdAt = createdAt c\<rparr>
       ''AWS connection verified and saved successfully''"

text \<open>
  \<^verbatim>\<open>name: name || connection.name\<close> in the data of the update: the target's own
  name when no truthy name is submitted, a submitted string as it is, and for any other
  value what the ORM makes of it.
\<close>

definition name_data :: "world \<Rightarrow> json_value option \<Rightarrow> connection \<Rightarrow> string + string" where
  "name_data w name_in conn =
     (case truthy_json name_in of
        None \<Rightarrow> Inr (name_conn conn)
      | Some v \<Rightarrow> (case v of JString n \<Rightarrow> Inr n | _ \<Rightarrow> prisma_name_data w v))"

text \<open>Step 3 of the route: re-use the user's row for this role, or promote the target.\<close>

definition persist ::
  "world \<Rightarrow> string \<Rightarrow> string \<Rightarrow> json_value option \<Rightarrow> connection \<Rightarrow> store
     \<Rightarrow> string + (connection \<times> store)" where
  "persist w uid role name_in conn st =
     (let existingByRole = findFirst (\<lambda>c. userId c = uid \<and> roleArn c = Some role) st;
          reuse = (case existingByRole of
                     None \<Rightarrow> None
                   | Some ex \<Rightarrow> (if id_conn ex \<noteq> id_conn conn then Some ex else None))
      in case reuse of
           Some ex \<Rightarrow>
             (if roleArn conn = None
              then (case delete_conn st (id_conn conn) of
                      Inl msg \<Rightarrow> Inl msg
                    | Inr (_, st') \<Rightarrow> Inr (ex, st'))
              else Inr (ex, st))
         | None \<Rightarrow>
             (case name_data w name_in conn of
                Inl msg \<Rightarrow> Inl msg
              | Inr n \<Rightarrow>
                  update_conn st (id_conn conn) (\<lambda>c. c\<lparr>roleArn := Some role, name_conn := n\<rparr>)))"

definition internal_error :: "string \<Rightarrow> response" where
  "internal_error msg = json 500 (ErrorBody ''Internal server error'' (Some msg))"

text \<open>The route from the point where \<^verbatim>\<open>roleArn\<close> is known to be a truthy string.\<close>

definition verify_role ::
  "world \<Rightarrow> string \<Rightarrow> string \<Rightarrow> json_value option \<Rightarrow> json_value option \<Rightarrow> store \<Rightarrow> outcome" where
  "verify_role w uid role name_in connectionId st =
     (if \<not> startsWith role ''arn:aws:iam::'' \<or> \<not> includes_str role '':role/''
      then (json 400
              (ErrorBody
                 ''Invalid roleArn format. Expected: arn:aws:iam::ACCOUNT_ID:role/ROLE_NAME''
                 None), st, [])
      else
        (case resolve_target w uid connectionId st of
           Inl msg \<Rightarrow> (internal_error msg, st, [])
         | Inr (conn, st1) \<Rightarrow>
             (case assumeRole w (Some role) (externalId conn) of
                (Inl msg, tr1) \<Rightarrow>
                  (json 403 (ErrorBody ''Failed to assume role'' (Some msg)), st1, tr1)
              | (Inr creds, tr1) \<Rightarrow>
                  (case listBuckets w creds of
                     (Inl msg, tr2) \<Rightarrow>
                       (json 403
                          (ErrorBody ''Role assumed successfully but S3 access denied''
                             (Some msg)), st1, tr1 @ tr2)
                   | (Inr _, tr2) \<Rightarrow>
                       (case persist w uid role name_in conn st1 of
                          Inl msg \<Rightarrow> (internal_error msg, st1, tr1 @ tr2)
                        | Inr (c, st2) \<Rightarrow>
                            (json 200 (verified_body c), st2, tr1 @ tr2))))))"

text \<open>
  The whole route. An unparsable body, a null body (the destructuring throws) and a
  truthy \<^verbatim>\<open>roleArn\<close> that is not a string (\<^verbatim>\<open>roleArn.startsWith\<close> is not a function)
  all end in the outer \<^verbatim>\<open>catch\<close>.
\<close>

definition verify_POST :: "world \<Rightarrow> request_body \<Rightarrow> store \<Rightarrow> outcome" where
  "verify_POST w request st =
     (case truthy (session_user w) of
        None \<Rightarrow> (json 401 (ErrorBody ''Unauthorized'' None), st, [])
      | Some uid \<Rightarrow>
          (case request of
             Unparsable msg \<Rightarrow> (internal_error msg, st, [])
           | Parsed parsed \<Rightarrow>
               (if parsed = JNull
                then (internal_error (type_error_message w DestructureNull), st, [])
                else
                  (case truthy_json (member parsed ''roleArn'') of
                     None \<Rightarrow> (json 400 (ErrorBody ''roleArn is required'' None), st, [])
                   | Some v \<Rightarrow>
                       (case v of
                          JString role \<Rightarrow>
                            verify_role w uid role (member parsed ''name'')
                              (member parsed ''connectionId'') st
                        | _ \<Rightarrow> (internal_error (type_error_message w NotAFunction), st, []))))))"

section \<open>The S3 routes\<close>

text \<open>
  The three routes fetch the connection with the same statement: the user's row with
  the given id, or without an id the user's most recent row.
\<close>

definition fetch_connection ::
  "world \<Rightarrow> string \<Rightarrow> json_value option \<Rightarrow> store \<Rightarrow> string + connection option" where
  "fetch_connection w uid connectionId st =
     (case truthy_json connectionId of
        Some v \<Rightarrow> find_by_id w uid v st
      | None \<Rightarrow> Inr (findFirst_desc (\<lambda>c. userId c = uid) st))"

definition no_connection :: response where
  "no_connection =
     json 404 (ErrorBody ''No AWS connection found. Please configure a connection first.'' None)"

definition not_verified :: response where
  "not_verified =
     json 409
       (ErrorBody
          ''AWS connection is not verified yet. Please paste a Role ARN and click Verify & Connect.''
          None)"

subsection \<open>GET /api/s3/buckets\<close>

text \<open>\<^verbatim>\<open>searchParams.get("connectionId")\<close> is a string or null.\<close>

definition buckets_GET :: "world \<Rightarrow> string option \<Rightarrow> store \<Rightarrow> outcome" where
  "buckets_GET w connectionId st =
     (case truthy (session_user w) of
        None \<Rightarrow> (json 401 (ErrorBody ''Unauthorized'' None), st, [])
      | Some uid \<Rightarrow>
          (case fetch_connection w uid (map_option JString connectionId) st of
             Inl msg \<Rightarrow> (json 500 (ErrorBody ''Failed to list buckets'' (Some msg)), st, [])
           | Inr None \<Rightarrow> (no_connection, st, [])
           | Inr (Some conn) \<Rightarrow>
               (case truthy (roleArn conn) of
                  None \<Rightarrow> (not_verified, st, [])
                | Some role \<Rightarrow>
                    (case assumeRole w (Some role) (externalId conn) of
                       (Inl msg, tr1) \<Rightarrow>
                         (json 500 (ErrorBody ''Failed to list buckets'' (Some msg)), st, tr1)
                     | (Inr creds, tr1) \<Rightarrow>
                         (case listBuckets w creds of
                            (Inl msg, tr2) \<Rightarrow>
                              (json 500 (ErrorBody ''Failed to list buckets'' (Some msg)), st,
                               tr1 @ tr2)
                          | (Inr buckets, tr2) \<Rightarrow>
                              (json 200 (BucketsBody buckets (id_conn conn) (name_conn conn) role),
                               st, tr1 @ tr2))))))"

subsection \<open>POST /api/s3/presigned-url\<close>

text \<open>\<^verbatim>\<open>expiresIn || 3600\<close>: a falsy or absent lifetime becomes one hour.\<close>

definition expiry :: "json_value option \<Rightarrow> json_value" where
  "expiry e = (case truthy_json e of None \<Rightarrow> JNumber (Finite 3600) | Some v \<Rightarrow> v)"

definition presign_failed :: "string \<Rightarrow> response" where
  "presign_failed msg = json 500 (ErrorBody ''Failed to generate presigned URL'' (Some msg))"

definition presign_POST :: "world \<Rightarrow> request_body \<Rightarrow> store \<Rightarrow> outcome" where
  "presign_POST w request st =
     (case truthy (session_user w) of
        None \<Rightarrow> (json 401 (ErrorBody ''Unauthorized'' None), st, [])
      | Some uid \<Rightarrow>
          (case request of
             Unparsable msg \<Rightarrow> (presign_failed msg, st, [])
           | Parsed parsed \<Rightarrow>
               (if parsed = JNull
                then (presign_failed (type_error_message w DestructureNull), st, [])
                else
                  (case (truthy_json (member parsed ''bucket''), truthy_json (member parsed ''key'')) of
                     (Some bkt, Some k) \<Rightarrow>
                       (case fetch_connection w uid (member parsed ''connectionId'') st of
                          Inl msg \<Rightarrow> (presign_failed msg, st, [])
                        | Inr None \<Rightarrow> (no_connection, st, [])
                        | Inr (Some conn) \<Rightarrow>
                            (case truthy (roleArn conn) of
                               None \<Rightarrow> (not_verified, st, [])
                             | Some role \<Rightarrow>
                                 (case assumeRole w (Some role) (externalId conn) of
                                    (Inl msg, tr1) \<Rightarrow> (presign_failed msg, st, tr1)
                                  | (Inr creds, tr1) \<Rightarrow>
                                      (case generatePresignedUploadUrl w bkt k
                                              (member parsed ''contentType'') (Some creds)
                                              (expiry (member parsed ''expiresIn'')) of
                                         (Inl msg, tr2) \<Rightarrow> (presign_failed msg, st, tr1 @ tr2)
                                       | (Inr url, tr2) \<Rightarrow>
                                           (json 200
                                              (PresignBody url bkt k
                                                 (expiry (member parsed ''expiresIn''))),
                                            st, tr1 @ tr2)))))
                   | _ \<Rightarrow> (json 400 (ErrorBody ''bucket and key are required'' None), st, [])))))"

subsection \<open>GET /api/s3/objects\<close>

record objects_query =
  q_bucket :: "string option"
  q_prefix :: "string option"
  q_maxKeys :: "string option"
  q_connectionId :: "string option"

text \<open>
  This route goes from the fetched row straight to \<^verbatim>\<open>assumeRole\<close>, with the row's
  role ARN as it is stored.
\<close>

definition objects_GET :: "world \<Rightarrow> objects_query \<Rightarrow> store \<Rightarrow> outcome" where
  "objects_GET w query st =
     (case truthy (session_user w) of
        None \<Rightarrow> (json 401 (ErrorBody ''Unauthorized'' None), st, [])
      | Some uid \<Rightarrow>
          (let prefix = truthy (q_prefix query);
               maxKeys = map_option (parseInt10 w) (truthy (q_maxKeys query))
           in case truthy (q_bucket query) of
                None \<Rightarrow> (json 400 (ErrorBody ''bucket parameter is required'' None), st, [])
              | Some bkt \<Rightarrow>
                  (case fetch_connection w uid (map_option JString (q_connectionId query)) st of
                     Inl msg \<Rightarrow>
                       (json 500 (ErrorBody ''Failed to list objects'' (Some msg)), st, [])
                   | Inr None \<Rightarrow> (no_connection, st, [])
                   | Inr (Some conn) \<Rightarrow>
                       (case assumeRole w (roleArn conn) (externalId conn) of
                          (Inl msg, tr1) \<Rightarrow>
                            (json 500 (ErrorBody ''Failed to list objects'' (Some msg)), st, tr1)
                        | (Inr creds, tr1) \<Rightarrow>
                            (case listObjects w bkt prefix maxKeys (Some creds) of
                               (Inl msg, tr2) \<Rightarrow>
                                 (json 500 (ErrorBody ''Failed to list objects'' (Some msg)), st,
                                  tr1 @ tr2)
                             | (Inr result, tr2) \<Rightarrow>
                                 (json 200
                                    (ObjectsBody bkt (case prefix of None \<Rightarrow> [] | Some p \<Rightarrow> p)
                                       (objects result) (isTruncated result)
                                       (nextContinuationToken result)
                                       (id_conn conn) (name_conn conn)),
                                  st, tr1 @ tr2))))))"

section \<open>Sequences of requests\<close>

datatype request =
    Bootstrap
  | Verify request_body
  | Buckets_of "string option"
  | Objects_of objects_query
  | Presign request_body

definition handle :: "world \<Rightarrow> request \<Rightarrow> store \<Rightarrow> outcome" where
  "handle w rq st =
     (case rq of
        Bootstrap \<Rightarrow> bootstrap_GET w st
      | Verify b \<Rightarrow> verify_POST w b st
      | Buckets_of cid \<Rightarrow> buckets_GET w cid st
      | Objects_of q \<Rightarrow> objects_GET w q st
      | Presign b \<Rightarrow> presign_POST w b st)"

text \<open>The table after a sequence of requests, each served in its own world.\<close>

fun run :: "(world \<times> request) list \<Rightarrow> store \<Rightarrow> store" where
  "run [] st = st"
| "run ((w, rq) # rest) st = run rest (fst (snd (handle w rq st)))"

section \<open>The role-ARN shape of the specification\<close>

text \<open>
  The specification's shape \<^verbatim>\<open>arn:aws:iam::<account>:role/<name>\<close>, read as loosely
  as it can be: any account and any name, either possibly empty. The marker has to
  come after the prefix.
\<close>

definition role_arn_shape :: "string \<Rightarrow> bool" where
  "role_arn_shape s =
     (startsWith s ''arn:aws:iam::''
      \<and> includes_str (drop (length ''arn:aws:iam::'') s) '':role/'')"

section \<open>Rows across requests\<close>

text \<open>
  \<open>evolves st st'\<close>: the ids of \<open>st'\<close> are distinct, a row of \<open>st'\<close> with the id of a
  row of \<open>st\<close> has that row's External ID and owner and is verified if that row was,
  and every verified row of \<open>st\<close> still has its id in \<open>st'\<close>.
\<close>

definition evolves :: "store \<Rightarrow> store \<Rightarrow> bool" where
  "evolves st st' =
     (distinct (map id_conn st')
      \<and> (\<forall>c\<in>set st. \<forall>c'\<in>set st'. id_conn c' = id_conn c \<longrightarrow>
            externalId c' = externalId c \<and> userId c' = userId c
            \<and> (roleArn c \<noteq> None \<longrightarrow> roleArn c' \<noteq> None))
      \<and> (\<forall>c\<in>set st. roleArn c \<noteq> None \<longrightarrow> id_conn c \<in> id_conn ` set st'))"

text \<open>
  \<open>keys_ok st\<close>: the table satisfies its primary key and its two unique indexes, as
  the database guarantees for every table it stores.
\<close>

fun keys_ok :: "store \<Rightarrow> bool" where
  "keys_ok [] = True"
| "keys_ok (c # cs) = (\<not> list_ex (clashes c) cs \<and> keys_ok cs)"

section \<open>Sample data\<close>

text \<open>
  A provider that trusts the base account for one role under one External ID, a
  signed-in user, and a table with that user's pending row beside a verified row of
  another user. \<open>body_of\<close> is the parsed body with the given string members.
\<close>

definition body_of :: "(string \<times> string) list \<Rightarrow> request_body" where
  "body_of ms = Parsed (JObject (map_option JString \<circ> map_of ms))"


definition demo_credentials :: credentials where
  "demo_credentials =
     \<lparr>accessKeyId = ''ASIA'', secretAccessKey = ''sk'', sessionToken = ''tok'',
      expiration = 3620\<rparr>"

definition demo_sts :: "assume_role_input \<Rightarrow> string + credentials option" where
  "demo_sts command =
     (if RoleArn command = Some ''arn:aws:iam::1:role/Demo'' \<and> ExternalId command = ''ext-1''
      then Inr (Some demo_credentials) else Inl ''AccessDenied'')"

definition alice_world :: world where
  "alice_world =
     \<lparr>session_user = Some ''alice'', new_id = ''c2'', random_externalId = ''ext-2'',
      now = 20, date_now = ''20'',
      AWS_ACCESS_KEY_ID = Some ''AKIA'', AWS_SECRET_ACCESS_KEY = Some ''base'',
      AWS_REGION = None,
      sts_send = demo_sts,
      s3_list_buckets = (\<lambda>_. Inr \<lparr>Buckets = None\<rparr>),
      s3_list_objects =
        (\<lambda>_ _. Inr \<lparr>Contents = None, IsTruncated = None, NextContinuationToken = None\<rparr>),
      get_signed_url = (\<lambda>_ _ _. Inr ''https://bucket.example/put''),
      type_error_message = (\<lambda>_. ''TypeError''),
      parseInt10 = (\<lambda>_. NaN),
      prisma_id_filter = (\<lambda>_. Inl ''Invalid value provided''),
      prisma_name_data = (\<lambda>_. Inl ''Invalid value provided'')\<rparr>"

definition alice_later :: world where
  "alice_later = alice_world\<lparr>new_id := ''c3'', random_externalId := ''ext-3'', now := 30, date_now := ''30''\<rparr>"

definition alice_pending :: connection where
  "alice_pending =
     \<lparr>id_conn = ''c1'', userId = ''alice'', externalId = ''ext-1'', roleArn = None,
      name_conn = ''Pending AWS connection'', createdAt = 10\<rparr>"

definition bob_verified :: connection where
  "bob_verified =
     \<lparr>id_conn = ''b1'', userId = ''bob'', externalId = ''ext-b'',
      roleArn = Some ''arn:aws:iam::1:role/Demo'', name_conn = ''Bob'', createdAt = 5\<rparr>"

definition alice_verified :: connection where
  "alice_verified =
     \<lparr>id_conn = ''c0'', userId = ''alice'', externalId = ''ext-0'',
      roleArn = Some ''arn:aws:iam::1:role/Demo'', name_conn = ''Prod'', createdAt = 3\<rparr>"

definition sample_store :: store where
  "sample_store = [bob_verified, alice_pending]"

section \<open>Basic facts\<close>

lemma truthy_Some: "truthy x = Some s \<longleftrightarrow> x = Some s \<and> s \<noteq> []"
  by (auto simp: truthy_def split: option.splits)

lemma truthy_None: "truthy x = None \<longleftrightarrow> x = None \<or> x = Some []"
  by (auto simp: truthy_def split: option.splits)

lemma truthy_json_Some: "truthy_json x = Some v \<longleftrightarrow> x = Some v \<and> js_truthy v"
  by (auto simp: truthy_json_def split: option.splits)

lemma truthy_json_string: "truthy_json (Some (JString s)) = map_option JString (truthy (Some s))"
  by (simp add: truthy_json_def truthy_def)

lemma startsWith_iff: "startsWith s p \<longleftrightarrow> (\<exists>t. s = p @ t)"
  unfolding startsWith_def
  by (metis append_eq_conv_conj append_take_drop_id)

lemma includes_str_iff: "includes_str s sub \<longleftrightarrow> (\<exists>a b. s = a @ sub @ b)"
proof (induction s)
  case Nil
  then show ?case by auto
next
  case (Cons c cs)
  show ?case
  proof
    assume "includes_str (c # cs) sub"
    then consider "startsWith (c # cs) sub" | "includes_str cs sub" by auto
    then show "\<exists>a b. c # cs = a @ sub @ b"
    proof cases
      case 1
      then obtain t where "c # cs = sub @ t" by (auto simp: startsWith_iff)
      then have "c # cs = [] @ sub @ t" by simp
      then show ?thesis by blast
    next
      case 2
      then obtain a b where "cs = a @ sub @ b" using Cons.IH by auto
      then have "c # cs = (c # a) @ sub @ b" by simp
      then show ?thesis by blast
    qed
  next
    assume "\<exists>a b. c # cs = a @ sub @ b"
    then obtain a b where ab: "c # cs = a @ sub @ b" by auto
    show "includes_str (c # cs) sub"
    proof (cases a)
      case Nil
      then have "startsWith (c # cs) sub" using ab by (simp add: startsWith_iff)
      then show ?thesis by simp
    next
      case (Cons x xs)
      then have "cs = xs @ sub @ b" using ab by simp
      then show ?thesis using Cons.IH by auto
    qed
  qed
qed

text \<open>The executable shape is the specification's: a prefix, an account, the marker, a name.\<close>

lemma role_arn_shape_iff:
  "role_arn_shape s \<longleftrightarrow> (\<exists>account nm. s = ''arn:aws:iam::'' @ account @ '':role/'' @ nm)"
proof
  assume "role_arn_shape s"
  then obtain t a b where
    "s = ''arn:aws:iam::'' @ t" "drop (length ''arn:aws:iam::'') s = a @ '':role/'' @ b"
    unfolding role_arn_shape_def startsWith_iff includes_str_iff by blast
  then have "s = ''arn:aws:iam::'' @ a @ '':role/'' @ b" by simp
  then show "\<exists>account nm. s = ''arn:aws:iam::'' @ account @ '':role/'' @ nm" by blast
next
  assume "\<exists>account nm. s = ''arn:aws:iam::'' @ account @ '':role/'' @ nm"
  then obtain a b where s: "s = ''arn:aws:iam::'' @ a @ '':role/'' @ b" by blast
  have "startsWith s ''arn:aws:iam::''" unfolding startsWith_iff using s by blast
  moreover have "drop (length ''arn:aws:iam::'') s = a @ '':role/'' @ b" using s by simp
  then have "includes_str (drop (length ''arn:aws:iam::'') s) '':role/''"
    unfolding includes_str_iff by blast
  ultimately show "role_arn_shape s" by (simp add: role_arn_shape_def)
qed

text \<open>Every role ARN of the specification's shape passes the route's two tests.\<close>

lemma role_arn_shape_accepted:
  assumes "role_arn_shape s"
  shows "startsWith s ''arn:aws:iam::'' \<and> includes_str s '':role/''"
proof -
  obtain a b where s: "s = ''arn:aws:iam::'' @ a @ '':role/'' @ b"
    using assms role_arn_shape_iff by blast
  then have "s = (''arn:aws:iam::'' @ a) @ '':role/'' @ b" by simp
  then have "includes_str s '':role/''" unfolding includes_str_iff by blast
  moreover have "startsWith s ''arn:aws:iam::''" unfolding startsWith_iff using s by blast
  ultimately show ?thesis by simp
qed

lemmas sample_defs = alice_world_def alice_later_def alice_pending_def alice_verified_def bob_verified_def sample_store_def
  demo_sts_def demo_credentials_def

lemmas route_defs = verify_POST_def verify_role_def resolve_target_def find_by_id_def
  where_id_def persist_def name_data_def assumeRole_def
  getBaseCredentials_def listBuckets_def findFirst_def findFirst_desc_def create_conn_def
  update_conn_def delete_conn_def pending_row_def clashes_def truthy_def truthy_json_def
  member_def body_of_def json_def internal_error_def verified_body_def startsWith_def

section \<open>Validation of the role ARN\<close>

text \<open>
  C7, as the specification states it, fails: \<^verbatim>\<open>arn:aws:iam::role/Demo\<close> has not the
  shape \<^verbatim>\<open>arn:aws:iam::<account>:role/<name>\<close> (the marker overlaps the prefix), yet
  the route accepts it, resolves the pending row and calls the provider, which answers
  403.
\<close>

theorem verify_shape_counterexample:
  "\<not> role_arn_shape ''arn:aws:iam::role/Demo''
   \<and> verify_POST alice_world (body_of [(''roleArn'', ''arn:aws:iam::role/Demo'')]) sample_store
     = (json 403
          (ErrorBody ''Failed to assume role'' (Some ''Failed to assume role: AccessDenied'')),
        sample_store,
        [StsAssumeRole
           \<lparr>RoleArn = Some ''arn:aws:iam::role/Demo'', RoleSessionName = ''s3-helper-20'',
            ExternalId = ''ext-1'', DurationSeconds = 3600\<rparr>])"
  by (simp add: role_arn_shape_def sample_defs route_defs)

text \<open>
  The route's declared body type is not checked either. For a signed-in user an
  unparsable body, a null body, and a truthy \<^verbatim>\<open>roleArn\<close> that is not a string (a
  number, \<^verbatim>\<open>true\<close>, an array, an object) are answered 500 from the outer
  \<^verbatim>\<open>catch\<close>, with no provider call and the table as it was.
\<close>

lemma verify_body_type_errors:
  assumes "truthy (session_user w) = Some uid"
    and "request = Unparsable msg \<or> request = Parsed JNull
         \<or> (\<exists>parsed v. request = Parsed parsed \<and> parsed \<noteq> JNull
               \<and> truthy_json (member parsed ''roleArn'') = Some v \<and> (\<forall>s. v \<noteq> JString s))"
  shows "status (fst (verify_POST w request st)) = 500
         \<and> fst (snd (verify_POST w request st)) = st
         \<and> snd (snd (verify_POST w request st)) = []"
  using assms
  by (auto simp: verify_POST_def internal_error_def json_def split: json_value.splits)

lemma verify_numeric_roleArn:
  "verify_POST alice_world (Parsed (JObject [''roleArn'' \<mapsto> JNumber (Finite 123)])) sample_store
   = (json 500 (ErrorBody ''Internal server error'' (Some ''TypeError'')), sample_store, [])"
  by (simp add: sample_defs route_defs)

text \<open>
  C7, amended: for a signed-in user and a body that parses to a JSON value other than
  null, when the \<^verbatim>\<open>roleArn\<close> member is absent or falsy (null, false, zero, the empty
  string), or is a string that does not start with \<^verbatim>\<open>arn:aws:iam::\<close> or does not
  contain \<^verbatim>\<open>:role/\<close>, verify answers 400, leaves the table as it was and makes no
  provider call.
\<close>

theorem verify_rejects_malformed:
  assumes "truthy (session_user w) = Some uid"
    and "parsed \<noteq> JNull"
    and "truthy_json (member parsed ''roleArn'') = None
         \<or> (\<exists>r. member parsed ''roleArn'' = Some (JString r)
                \<and> (\<not> startsWith r ''arn:aws:iam::'' \<or> \<not> includes_str r '':role/''))"
  shows "status (fst (verify_POST w (Parsed parsed) st)) = 400
         \<and> fst (snd (verify_POST w (Parsed parsed) st)) = st
         \<and> snd (snd (verify_POST w (Parsed parsed) st)) = []"
proof (cases "truthy_json (member parsed ''roleArn'')")
  case None
  then show ?thesis using assms(1,2) by (simp add: verify_POST_def json_def)
next
  case (Some v)
  then have m: "member parsed ''roleArn'' = Some v" by (simp add: truthy_json_Some)
  with assms(3) Some obtain r where
    r: "v = JString r" "\<not> startsWith r ''arn:aws:iam::'' \<or> \<not> includes_str r '':role/''"
    by auto
  then show ?thesis using assms(1,2) Some
    by (auto simp add: verify_POST_def verify_role_def json_def)
qed

text \<open>The misformatted ARN of the specification, \<^verbatim>\<open>user/Demo\<close>, is rejected so.\<close>

theorem verify_rejects_malformed_witness:
  "truthy (session_user alice_world) = Some ''alice''
   \<and> JObject [''roleArn'' \<mapsto> JString ''arn:aws:iam::123456789012:user/Demo''] \<noteq> JNull
   \<and> member (JObject [''roleArn'' \<mapsto> JString ''arn:aws:iam::123456789012:user/Demo'']) ''roleArn''
       = Some (JString ''arn:aws:iam::123456789012:user/Demo'')
   \<and> \<not> includes_str ''arn:aws:iam::123456789012:user/Demo'' '':role/''
   \<and> status (fst (verify_POST alice_world
                    (Parsed (JObject [''roleArn'' \<mapsto> JString ''arn:aws:iam::123456789012:user/Demo'']))
                    sample_store)) = 400
   \<and> fst (snd (verify_POST alice_world
                  (Parsed (JObject [''roleArn'' \<mapsto> JString ''arn:aws:iam::123456789012:user/Demo'']))
                  sample_store))
     = sample_store
   \<and> snd (snd (verify_POST alice_world
                  (Parsed (JObject [''roleArn'' \<mapsto> JString ''arn:aws:iam::123456789012:user/Demo'']))
                  sample_store)) = []"
proof -
  let ?p = "JObject [''roleArn'' \<mapsto> JString ''arn:aws:iam::123456789012:user/Demo'']"
  have a: "truthy (session_user alice_world) = Some ''alice''"
    by (simp add: alice_world_def truthy_def)
  have n: "?p \<noteq> JNull" by simp
  have m: "member ?p ''roleArn'' = Some (JString ''arn:aws:iam::123456789012:user/Demo'')"
    by (simp add: member_def)
  have b: "\<not> includes_str ''arn:aws:iam::123456789012:user/Demo'' '':role/''"
    by (simp add: startsWith_def)
  show ?thesis
    using verify_rejects_malformed [of alice_world "''alice''" ?p sample_store] a n m b
    by simp
qed

section \<open>The table operations and the provider calls\<close>

lemma most_recent_None: "most_recent xs = None \<longleftrightarrow> xs = []"
  by (induction xs) (auto split: option.splits)

lemma most_recent_in_set: "most_recent xs = Some x \<Longrightarrow> x \<in> set xs"
  by (induction xs arbitrary: x) (auto split: option.splits if_splits)

lemma findFirst_Some: "findFirst P st = Some c \<Longrightarrow> c \<in> set st \<and> P c"
  unfolding findFirst_def by (auto simp: find_Some_iff)

lemma findFirst_desc_Some: "findFirst_desc P st = Some c \<Longrightarrow> c \<in> set st \<and> P c"
  unfolding findFirst_desc_def using most_recent_in_set by fastforce

lemma findFirst_desc_None: "findFirst_desc P st = None \<longleftrightarrow> filter P st = []"
  unfolding findFirst_desc_def by (simp add: most_recent_None)

lemma create_conn_Inr:
  "create_conn st c = Inr (d, st') \<Longrightarrow> d = c \<and> st' = st @ [c] \<and> \<not> list_ex (clashes c) st"
  by (auto simp: create_conn_def split: if_splits)

text \<open>A lookup by a submitted id returns a row of the table that the user owns.\<close>

lemma find_by_id_Some:
  "find_by_id w uid v st = Inr (Some c) \<Longrightarrow> c \<in> set st \<and> userId c = uid"
  unfolding find_by_id_def
  by (auto split: sum.splits dest!: findFirst_Some)

text \<open>The three outcomes of the lookup that opens the resolution step.\<close>

lemma resolve_target_cases:
  assumes "resolve_target w uid cid st = Inr (c, st1)"
  shows "(st1 = st \<and> c \<in> set st \<and> userId c = uid)
         \<or> (create_conn st (pending_row w uid) = Inr (c, st1)
             \<and> filter (\<lambda>d. userId d = uid \<and> roleArn d = None) st = [])"
proof -
  let ?byId = "case truthy_json cid of None \<Rightarrow> Inr None | Some v \<Rightarrow> find_by_id w uid v st"
  show ?thesis
  proof (cases ?byId)
    case (Inl msg)
    then show ?thesis using assms by (simp add: resolve_target_def)
  next
    case (Inr found)
    show ?thesis
    proof (cases found)
      case (Some d)
      then have "c = d \<and> st1 = st" using assms Inr by (simp add: resolve_target_def)
      moreover have "d \<in> set st \<and> userId d = uid"
        using Inr Some find_by_id_Some by (auto split: option.splits)
      ultimately show ?thesis by simp
    next
      case None
      show ?thesis
      proof (cases "findFirst_desc (\<lambda>d. userId d = uid \<and> roleArn d = None) st")
        case (Some d)
        then have "c = d \<and> st1 = st" using assms Inr None by (simp add: resolve_target_def)
        then show ?thesis using findFirst_desc_Some [OF Some] by simp
      next
        case none: None
        then have "create_conn st (pending_row w uid) = Inr (c, st1)"
          using assms Inr None by (simp add: resolve_target_def)
        then show ?thesis using none by (simp add: findFirst_desc_None)
      qed
    qed
  qed
qed

text \<open>What the resolution step returns is a row of the table it returns, owned by the user.\<close>

lemma resolve_target_Inr:
  assumes "resolve_target w uid cid st = Inr (c, st1)"
  shows "c \<in> set st1 \<and> userId c = uid
         \<and> (st1 = st \<or> (st1 = st @ [c] \<and> c = pending_row w uid
                          \<and> filter (\<lambda>d. userId d = uid \<and> roleArn d = None) st = []))"
proof -
  from resolve_target_cases [OF assms] show ?thesis
  proof
    assume "st1 = st \<and> c \<in> set st \<and> userId c = uid"
    then show ?thesis by simp
  next
    assume a: "create_conn st (pending_row w uid) = Inr (c, st1)
               \<and> filter (\<lambda>d. userId d = uid \<and> roleArn d = None) st = []"
    then have "c = pending_row w uid \<and> st1 = st @ [c]" using create_conn_Inr by blast
    then show ?thesis using a by (simp add: pending_row_def)
  qed
qed

lemma assumeRole_trace:
  "StsAssumeRole cmd \<in> set (snd (assumeRole w role ext))
   \<Longrightarrow> ExternalId cmd = ext \<and> RoleArn cmd = role"
  by (auto simp: assumeRole_def Let_def split: sum.splits)

lemma listBuckets_trace: "listBuckets w creds = (r, tr) \<Longrightarrow> tr = [S3ListBuckets creds]"
  by (auto simp: listBuckets_def)

text \<open>
  Either verify answers with an error before it has touched anything, or the body has
  a non-empty string \<^verbatim>\<open>roleArn\<close> and the route goes on with it.
\<close>

lemma verify_POST_cases:
  "(verify_POST w request st = (fst (verify_POST w request st), st, [])
    \<and> (\<exists>e d. body (fst (verify_POST w request st)) = ErrorBody e d)
    \<and> status (fst (verify_POST w request st)) \<in> {400, 401, 500})
   \<or> (\<exists>uid parsed role.
         truthy (session_user w) = Some uid \<and> request = Parsed parsed \<and> parsed \<noteq> JNull
         \<and> member parsed ''roleArn'' = Some (JString role)
         \<and> verify_POST w request st
             = verify_role w uid role (member parsed ''name'') (member parsed ''connectionId'') st)"
  unfolding verify_POST_def
  by (auto simp: json_def internal_error_def truthy_json_Some
      split: option.splits request_body.splits json_value.splits)

lemma verify_POST_role:
  assumes "truthy (session_user w) = Some uid" "parsed \<noteq> JNull"
    and "truthy_json (member parsed ''roleArn'') = Some (JString role)"
  shows "verify_POST w (Parsed parsed) st
         = verify_role w uid role (member parsed ''name'') (member parsed ''connectionId'') st"
  using assms by (simp add: verify_POST_def)

lemma verify_role_trace:
  assumes "StsAssumeRole cmd \<in> set (snd (snd (verify_role w uid role nm cid st)))"
  shows "\<exists>conn st1. resolve_target w uid cid st = Inr (conn, st1)
           \<and> StsAssumeRole cmd \<in> set (snd (assumeRole w (Some role) (externalId conn)))"
  using assms unfolding verify_role_def
  by (auto split: if_splits sum.splits prod.splits dest!: listBuckets_trace)

lemma verify_trace:
  assumes "StsAssumeRole cmd \<in> set (snd (snd (verify_POST w request st)))"
  shows "\<exists>uid parsed role conn st1. truthy (session_user w) = Some uid
           \<and> request = Parsed parsed
           \<and> member parsed ''roleArn'' = Some (JString role)
           \<and> resolve_target w uid (member parsed ''connectionId'') st = Inr (conn, st1)
           \<and> StsAssumeRole cmd \<in> set (snd (assumeRole w (Some role) (externalId conn)))"
proof -
  from verify_POST_cases [of w request st] show ?thesis
  proof
    assume "verify_POST w request st = (fst (verify_POST w request st), st, [])
            \<and> (\<exists>e d. body (fst (verify_POST w request st)) = ErrorBody e d)
            \<and> status (fst (verify_POST w request st)) \<in> {400, 401, 500}"
    then have "snd (snd (verify_POST w request st)) = []" by (metis snd_conv)
    then show ?thesis using assms by simp
  next
    assume "\<exists>uid parsed role.
         truthy (session_user w) = Some uid \<and> request = Parsed parsed \<and> parsed \<noteq> JNull
         \<and> member parsed ''roleArn'' = Some (JString role)
         \<and> verify_POST w request st
             = verify_role w uid role (member parsed ''name'') (member parsed ''connectionId'') st"
    then obtain uid parsed role where
      h: "truthy (session_user w) = Some uid" "request = Parsed parsed"
         "member parsed ''roleArn'' = Some (JString role)"
         "verify_POST w request st
            = verify_role w uid role (member parsed ''name'') (member parsed ''connectionId'') st"
      by blast
    from verify_role_trace [of cmd w uid role "member parsed ''name''"
        "member parsed ''connectionId''" st] assms h(4)
    obtain conn st1 where
      "resolve_target w uid (member parsed ''connectionId'') st = Inr (conn, st1)"
      "StsAssumeRole cmd \<in> set (snd (assumeRole w (Some role) (externalId conn)))"
      by auto
    with h(1-3) show ?thesis by blast
  qed
qed

section \<open>The External ID of role assumption\<close>

text \<open>
  C1: an \<^verbatim>\<open>externalId\<close> member in the verify body, of whatever value, changes
  nothing: response, table and provider calls are those of the request without it.
  Every role assumption verify makes passes the \<open>externalId\<close> of the row the request
  resolved to, a row of the table owned by the signed-in user.
\<close>

theorem verify_uses_stored_externalId:
  "verify_POST w (Parsed (JObject (m(''externalId'' \<mapsto> x)))) st = verify_POST w (Parsed (JObject m)) st
   \<and> (\<forall>cmd. StsAssumeRole cmd \<in> set (snd (snd (verify_POST w request st))) \<longrightarrow>
         (\<exists>uid parsed conn st1. truthy (session_user w) = Some uid
            \<and> request = Parsed parsed
            \<and> resolve_target w uid (member parsed ''connectionId'') st = Inr (conn, st1)
            \<and> conn \<in> set st1 \<and> userId conn = uid
            \<and> ExternalId cmd = externalId conn))"
proof -
  have eqs: "member (JObject (m(''externalId'' \<mapsto> x))) ''roleArn'' = member (JObject m) ''roleArn''"
    "member (JObject (m(''externalId'' \<mapsto> x))) ''connectionId'' = member (JObject m) ''connectionId''"
    "member (JObject (m(''externalId'' \<mapsto> x))) ''name'' = member (JObject m) ''name''"
    by (simp_all add: member_def)
  have nn: "(JObject (m(''externalId'' \<mapsto> x)) = JNull) = False" "(JObject m = JNull) = False"
    by simp_all
  have "verify_POST w (Parsed (JObject (m(''externalId'' \<mapsto> x)))) st
        = verify_POST w (Parsed (JObject m)) st"
    unfolding verify_POST_def request_body.case eqs nn ..
  moreover have "\<exists>uid parsed conn st1. truthy (session_user w) = Some uid
            \<and> request = Parsed parsed
            \<and> resolve_target w uid (member parsed ''connectionId'') st = Inr (conn, st1)
            \<and> conn \<in> set st1 \<and> userId conn = uid
            \<and> ExternalId cmd = externalId conn"
    if "StsAssumeRole cmd \<in> set (snd (snd (verify_POST w request st)))" for cmd
  proof -
    from verify_trace [OF that] obtain uid parsed role conn st1 where
      h: "truthy (session_user w) = Some uid" "request = Parsed parsed"
         "resolve_target w uid (member parsed ''connectionId'') st = Inr (conn, st1)"
         "StsAssumeRole cmd \<in> set (snd (assumeRole w (Some role) (externalId conn)))"
      by blast
    from resolve_target_Inr [OF h(3)] assumeRole_trace [OF h(4)] h(1,2,3)
    show ?thesis by blast
  qed
  ultimately show ?thesis by blast
qed

theorem verify_uses_stored_externalId_witness:
  "verify_POST alice_world
     (Parsed (JObject ([''roleArn'' \<mapsto> JString ''arn:aws:iam::1:role/Demo'']
                       (''externalId'' \<mapsto> JString ''evil'')))) sample_store
   = verify_POST alice_world
       (Parsed (JObject [''roleArn'' \<mapsto> JString ''arn:aws:iam::1:role/Demo''])) sample_store
   \<and> StsAssumeRole \<lparr>RoleArn = Some ''arn:aws:iam::1:role/Demo'', RoleSessionName = ''s3-helper-20'',
                      ExternalId = ''ext-1'', DurationSeconds = 3600\<rparr>
     \<in> set (snd (snd (verify_POST alice_world
                         (Parsed (JObject [''roleArn'' \<mapsto> JString ''arn:aws:iam::1:role/Demo'']))
                         sample_store)))
   \<and> (\<exists>conn st1.
          resolve_target alice_world ''alice'' None sample_store = Inr (conn, st1)
          \<and> conn \<in> set st1 \<and> externalId conn = ''ext-1'')"
proof -
  let ?cmd = "\<lparr>RoleArn = Some ''arn:aws:iam::1:role/Demo'', RoleSessionName = ''s3-helper-20'',
               ExternalId = ''ext-1'', DurationSeconds = 3600\<rparr>"
  let ?m = "[''roleArn'' \<mapsto> JString ''arn:aws:iam::1:role/Demo'']"
  have mem: "StsAssumeRole ?cmd \<in> set (snd (snd (verify_POST alice_world (Parsed (JObject ?m))
                                                  sample_store)))"
    by (simp add: sample_defs route_defs)
  have s: "truthy (session_user alice_world) = Some ''alice''"
    by (simp add: alice_world_def truthy_def)
  have c: "member (JObject ?m) ''connectionId'' = None" by (simp add: member_def)
  note t = verify_uses_stored_externalId [of alice_world ?m "JString ''evil''" sample_store
      "Parsed (JObject ?m)"]
  from t have t1: "verify_POST alice_world (Parsed (JObject (?m(''externalId'' \<mapsto> JString ''evil''))))
                     sample_store
                   = verify_POST alice_world (Parsed (JObject ?m)) sample_store"
    by (rule conjunct1)
  from t mem obtain uid parsed conn st1 where
    h: "truthy (session_user alice_world) = Some uid" "Parsed (JObject ?m) = Parsed parsed"
       "resolve_target alice_world uid (member parsed ''connectionId'') sample_store
          = Inr (conn, st1)"
       "conn \<in> set st1" "ExternalId ?cmd = externalId conn"
    by blast
  from h(1) s have "uid = ''alice''" by simp
  moreover from h(2) have "parsed = JObject ?m" by simp
  ultimately have "resolve_target alice_world ''alice'' None sample_store = Inr (conn, st1)"
    using h(3) c by simp
  moreover have "externalId conn = ''ext-1''" using h(5) by simp
  ultimately show ?thesis using t1 mem h(4) by blast
qed

section \<open>Failed verification\<close>

lemma find_append:
  "find P (xs @ ys) = (case find P xs of None \<Rightarrow> find P ys | Some x \<Rightarrow> Some x)"
  by (induction xs) auto

lemma where_id_string: "where_id w' (JString s) = where_id w (JString s)"
  by (simp add: where_id_def)

text \<open>
  Resolution is idempotent: on the table it returns, the same submitted id (read by
  the ORM in the same way) resolves to the same row and creates nothing.
\<close>

lemma resolve_target_idem:
  assumes "resolve_target w uid cid st = Inr (c, st1)"
    and "\<forall>v. truthy_json cid = Some v \<longrightarrow> where_id w' v = where_id w v"
  shows "resolve_target w' uid cid st1 = Inr (c, st1)"
proof -
  let ?P = "\<lambda>d. userId d = uid \<and> roleArn d = None"
  have fallback: "(case findFirst_desc ?P st1 of Some c \<Rightarrow> Inr (c, st1)
                   | None \<Rightarrow> create_conn st1 (pending_row w' uid)) = Inr (c, st1)"
    if a: "(case findFirst_desc ?P st of Some c \<Rightarrow> Inr (c, st)
            | None \<Rightarrow> create_conn st (pending_row w uid)) = Inr (c, st1)"
  proof (cases "findFirst_desc ?P st")
    case (Some d)
    then have "c = d \<and> st1 = st" using a by simp
    then show ?thesis using Some by simp
  next
    case None
    then have "create_conn st (pending_row w uid) = Inr (c, st1)" using a by simp
    then have c: "c = pending_row w uid" "st1 = st @ [c]" using create_conn_Inr by blast+
    have "?P c" using c(1) by (simp add: pending_row_def)
    moreover have "filter ?P st = []" using None by (simp add: findFirst_desc_None)
    ultimately have "findFirst_desc ?P st1 = Some c"
      using c(2) by (simp add: findFirst_desc_def)
    then show ?thesis by simp
  qed
  show ?thesis
  proof (cases "truthy_json cid")
    case None
    then show ?thesis using assms(1) fallback by (simp add: resolve_target_def)
  next
    case (Some v)
    then have wi: "where_id w' v = where_id w v" using assms(2) by simp
    show ?thesis
    proof (cases "where_id w v")
      case (Inl msg)
      then show ?thesis using assms(1) Some by (simp add: resolve_target_def find_by_id_def)
    next
      case (Inr p)
      let ?Q = "\<lambda>c. p (id_conn c) \<and> userId c = uid"
      show ?thesis
      proof (cases "findFirst ?Q st")
        case found: (Some d)
        then have "c = d \<and> st1 = st"
          using assms(1) Some Inr by (simp add: resolve_target_def find_by_id_def)
        then show ?thesis
          using found Some Inr wi by (simp add: resolve_target_def find_by_id_def)
      next
        case None
        then have a: "(case findFirst_desc ?P st of Some c \<Rightarrow> Inr (c, st)
                       | None \<Rightarrow> create_conn st (pending_row w uid)) = Inr (c, st1)"
          using assms(1) Some Inr by (simp add: resolve_target_def find_by_id_def)
        note fb = fallback [OF a]
        have pr: "roleArn (pending_row w uid) = None" by (simp add: pending_row_def)
        from resolve_target_Inr [OF assms(1)] have
          "userId c = uid" "st1 = st \<or> (st1 = st @ [c] \<and> c = pending_row w uid)"
          by blast+
        with pr have
          "st1 = st \<or> (st1 = st @ [c] \<and> userId c = uid \<and> roleArn c = None)"
          by metis
        then have F: "findFirst ?Q st1 = None \<or> findFirst ?Q st1 = Some c"
        proof
          assume "st1 = st"
          then show ?thesis using None by simp
        next
          assume s: "st1 = st @ [c] \<and> userId c = uid \<and> roleArn c = None"
          have "find ?Q st = None" using None by (simp add: findFirst_def)
          then have "findFirst ?Q st1 = (if ?Q c then Some c else None)"
            using s by (simp add: findFirst_def find_append)
          then show ?thesis by simp
        qed
        have R: "resolve_target w' uid cid st1
                 = (case findFirst ?Q st1 of
                      Some d \<Rightarrow> Inr (d, st1)
                    | None \<Rightarrow>
                        (case findFirst_desc ?P st1 of Some c \<Rightarrow> Inr (c, st1)
                         | None \<Rightarrow> create_conn st1 (pending_row w' uid)))"
          using Some Inr wi
          by (simp add: resolve_target_def find_by_id_def split: option.splits)
        from F show ?thesis
        proof
          assume "findFirst ?Q st1 = None"
          then show ?thesis using R fb by simp
        next
          assume "findFirst ?Q st1 = Some c"
          then show ?thesis using R by simp
        qed
      qed
    qed
  qed
qed

text \<open>
  C2: when a signed-in user's verify request passes validation and resolves to a row,
  and role assumption fails, or succeeds with the bucket probe failing, verify answers
  403 and leaves the table as it was when the row was resolved: the resolved row is in
  it with every column as before (no row is promoted, renamed or deleted). A retry by
  the same user with the same \<^verbatim>\<open>connectionId\<close>, whatever role ARN it submits,
  resolves to that row again and passes its External ID to every role assumption.
  (For a \<^verbatim>\<open>connectionId\<close> that is not a string, the same means that the ORM reads it in
  the same way both times.)
\<close>

theorem failed_verify_keeps_row:
  assumes "truthy (session_user w) = Some uid"
    and "parsed \<noteq> JNull"
    and "truthy_json (member parsed ''roleArn'') = Some (JString role)"
    and "startsWith role ''arn:aws:iam::''" and "includes_str role '':role/''"
    and "resolve_target w uid (member parsed ''connectionId'') st = Inr (conn, st1)"
    and "(\<exists>msg. fst (assumeRole w (Some role) (externalId conn)) = Inl msg)
         \<or> (\<exists>creds msg. fst (assumeRole w (Some role) (externalId conn)) = Inr creds
                \<and> fst (listBuckets w creds) = Inl msg)"
  shows "status (fst (verify_POST w (Parsed parsed) st)) = 403
         \<and> fst (snd (verify_POST w (Parsed parsed) st)) = st1
         \<and> conn \<in> set st1
         \<and> (st1 = st \<or> st1 = st @ [conn])
         \<and> (\<forall>w' parsed'.
               truthy (session_user w') = Some uid
               \<and> member parsed' ''connectionId'' = member parsed ''connectionId''
               \<and> (\<forall>v. member parsed ''connectionId'' = Some v \<longrightarrow> where_id w' v = where_id w v)
               \<longrightarrow>
               resolve_target w' uid (member parsed' ''connectionId'') st1 = Inr (conn, st1)
               \<and> (\<forall>cmd. StsAssumeRole cmd
                           \<in> set (snd (snd (verify_POST w' (Parsed parsed') st1)))
                      \<longrightarrow> ExternalId cmd = externalId conn))"
proof -
  have v: "verify_POST w (Parsed parsed) st
           = verify_role w uid role (member parsed ''name'') (member parsed ''connectionId'') st"
    using verify_POST_role [OF assms(1-3)] .
  have st: "status (fst (verify_POST w (Parsed parsed) st)) = 403
            \<and> fst (snd (verify_POST w (Parsed parsed) st)) = st1"
    unfolding v verify_role_def using assms(4-7)
    by (auto simp: json_def split: prod.splits sum.splits)
  have in1: "conn \<in> set st1" "st1 = st \<or> st1 = st @ [conn]"
    using resolve_target_Inr [OF assms(6)] by blast+
  have retry: "resolve_target w' uid (member parsed' ''connectionId'') st1 = Inr (conn, st1)
               \<and> (\<forall>cmd. StsAssumeRole cmd
                           \<in> set (snd (snd (verify_POST w' (Parsed parsed') st1)))
                      \<longrightarrow> ExternalId cmd = externalId conn)"
    if a: "truthy (session_user w') = Some uid"
      and b: "member parsed' ''connectionId'' = member parsed ''connectionId''"
      and c: "\<forall>v. member parsed ''connectionId'' = Some v \<longrightarrow> where_id w' v = where_id w v"
    for w' parsed'
  proof -
    have c': "\<forall>v. truthy_json (member parsed ''connectionId'') = Some v
                \<longrightarrow> where_id w' v = where_id w v"
      using c by (simp add: truthy_json_Some)
    have r: "resolve_target w' uid (member parsed' ''connectionId'') st1 = Inr (conn, st1)"
      using resolve_target_idem [OF assms(6) c'] b by simp
    have "ExternalId cmd = externalId conn"
      if "StsAssumeRole cmd \<in> set (snd (snd (verify_POST w' (Parsed parsed') st1)))" for cmd
    proof -
      from verify_trace [OF that] obtain uid' p' role' conn' st' where
        t: "truthy (session_user w') = Some uid'" "Parsed parsed' = Parsed p'"
           "resolve_target w' uid' (member p' ''connectionId'') st1 = Inr (conn', st')"
           "StsAssumeRole cmd \<in> set (snd (assumeRole w' (Some role') (externalId conn')))"
        by blast
      from t(1) a have "uid' = uid" by simp
      moreover from t(2) have "p' = parsed'" by simp
      ultimately have "conn' = conn" using t(3) r by simp
      with assumeRole_trace [OF t(4)] show ?thesis by simp
    qed
    with r show ?thesis by blast
  qed
  from st in1 retry show ?thesis by blast
qed

theorem failed_verify_keeps_row_witness:
  "truthy (session_user alice_world) = Some ''alice''
   \<and> JObject [''roleArn'' \<mapsto> JString ''arn:aws:iam::1:role/Typo''] \<noteq> JNull
   \<and> truthy_json (member (JObject [''roleArn'' \<mapsto> JString ''arn:aws:iam::1:role/Typo''])
                    ''roleArn'')
       = Some (JString ''arn:aws:iam::1:role/Typo'')
   \<and> startsWith ''arn:aws:iam::1:role/Typo'' ''arn:aws:iam::''
   \<and> includes_str ''arn:aws:iam::1:role/Typo'' '':role/''
   \<and> resolve_target alice_world ''alice''
         (member (JObject [''roleArn'' \<mapsto> JString ''arn:aws:iam::1:role/Typo'']) ''connectionId'')
         sample_store
       = Inr (alice_pending, sample_store)
   \<and> fst (assumeRole alice_world (Some ''arn:aws:iam::1:role/Typo'') (externalId alice_pending))
       = Inl ''Failed to assume role: AccessDenied''
   \<and> status (fst (verify_POST alice_world
                    (Parsed (JObject [''roleArn'' \<mapsto> JString ''arn:aws:iam::1:role/Typo'']))
                    sample_store)) = 403
   \<and> fst (snd (verify_POST alice_world
                  (Parsed (JObject [''roleArn'' \<mapsto> JString ''arn:aws:iam::1:role/Typo'']))
                  sample_store))
       = sample_store
   \<and> alice_pending \<in> set sample_store
   \<and> StsAssumeRole \<lparr>RoleArn = Some ''arn:aws:iam::1:role/Demo'', RoleSessionName = ''s3-helper-30'',
                      ExternalId = ''ext-1'', DurationSeconds = 3600\<rparr>
       \<in> set (snd (snd (verify_POST alice_later
                          (Parsed (JObject [''roleArn'' \<mapsto> JString ''arn:aws:iam::1:role/Demo'']))
                          sample_store)))
   \<and> ''ext-1'' = externalId alice_pending"
proof -
  let ?bad = "JObject [''roleArn'' \<mapsto> JString ''arn:aws:iam::1:role/Typo'']"
  let ?good = "JObject [''roleArn'' \<mapsto> JString ''arn:aws:iam::1:role/Demo'']"
  let ?cmd = "\<lparr>RoleArn = Some ''arn:aws:iam::1:role/Demo'', RoleSessionName = ''s3-helper-30'',
               ExternalId = ''ext-1'', DurationSeconds = 3600\<rparr>"
  have s: "truthy (session_user alice_world) = Some ''alice''"
    by (simp add: alice_world_def truthy_def)
  have s': "truthy (session_user alice_later) = Some ''alice''"
    by (simp add: alice_world_def alice_later_def truthy_def)
  have n: "?bad \<noteq> JNull" by simp
  have ro: "truthy_json (member ?bad ''roleArn'') = Some (JString ''arn:aws:iam::1:role/Typo'')"
    by (simp add: truthy_json_def member_def)
  have sw: "startsWith ''arn:aws:iam::1:role/Typo'' ''arn:aws:iam::''"
    by (simp add: startsWith_def)
  have inc: "includes_str ''arn:aws:iam::1:role/Typo'' '':role/''"
    by (simp add: startsWith_def)
  have r: "resolve_target alice_world ''alice'' (member ?bad ''connectionId'') sample_store
           = Inr (alice_pending, sample_store)"
    by (simp add: sample_defs route_defs)
  have f: "fst (assumeRole alice_world (Some ''arn:aws:iam::1:role/Typo'') (externalId alice_pending))
           = Inl ''Failed to assume role: AccessDenied''"
    by (simp add: sample_defs route_defs)
  have mem: "StsAssumeRole ?cmd
             \<in> set (snd (snd (verify_POST alice_later (Parsed ?good) sample_store)))"
    by (simp add: sample_defs route_defs)
  have c: "member ?good ''connectionId'' = member ?bad ''connectionId''"
    by (simp add: member_def)
  have c0: "\<forall>v. member ?bad ''connectionId'' = Some v
              \<longrightarrow> where_id alice_later v = where_id alice_world v"
    by (simp add: member_def)
  have f': "(\<exists>msg. fst (assumeRole alice_world (Some ''arn:aws:iam::1:role/Typo'')
                          (externalId alice_pending)) = Inl msg)
         \<or> (\<exists>creds msg. fst (assumeRole alice_world (Some ''arn:aws:iam::1:role/Typo'')
                          (externalId alice_pending)) = Inr creds
                \<and> fst (listBuckets alice_world creds) = Inl msg)"
    using f by blast
  note t = failed_verify_keeps_row [OF s n ro sw inc r f']
  from t have t1: "status (fst (verify_POST alice_world (Parsed ?bad) sample_store)) = 403"
    and t2: "fst (snd (verify_POST alice_world (Parsed ?bad) sample_store)) = sample_store"
    and t3: "alice_pending \<in> set sample_store"
    by blast+
  from t have "\<forall>cmd. StsAssumeRole cmd
                       \<in> set (snd (snd (verify_POST alice_later (Parsed ?good) sample_store)))
                      \<longrightarrow> ExternalId cmd = externalId alice_pending"
    using s' c c0 by blast
  with mem have "ExternalId ?cmd = externalId alice_pending" by blast
  then have "''ext-1'' = externalId alice_pending" by simp
  with s n ro sw inc r f t1 t2 t3 mem show ?thesis by blast
qed

section \<open>Bootstrap\<close>

text \<open>
  C3: for a signed-in user whose bootstrap call succeeds, the call returns the id and
  the External ID of a pending row of that user, and a second call returns the same
  pair and leaves the table as the first left it. The first call leaves the table
  untouched when the user has a pending row, and otherwise appends one pending row
  carrying the freshly generated External ID.
\<close>

theorem bootstrap_idempotent:
  assumes "truthy (session_user w1) = Some uid"
    and "truthy (session_user w2) = Some uid"
    and "status (fst (bootstrap_GET w1 st)) = 200"
  shows "\<exists>c. c \<in> set (fst (snd (bootstrap_GET w1 st)))
           \<and> userId c = uid \<and> roleArn c = None
           \<and> bootstrap_GET w1 st
             = (json 200 (BootstrapBody (id_conn c) (externalId c)),
                fst (snd (bootstrap_GET w1 st)), [])
           \<and> bootstrap_GET w2 (fst (snd (bootstrap_GET w1 st)))
             = (json 200 (BootstrapBody (id_conn c) (externalId c)),
                fst (snd (bootstrap_GET w1 st)), [])
           \<and> (filter (\<lambda>d. userId d = uid \<and> roleArn d = None) st \<noteq> []
                \<longrightarrow> fst (snd (bootstrap_GET w1 st)) = st)
           \<and> (filter (\<lambda>d. userId d = uid \<and> roleArn d = None) st = []
                \<longrightarrow> fst (snd (bootstrap_GET w1 st)) = st @ [c]
                    \<and> c = pending_row w1 uid \<and> externalId c = random_externalId w1)"
proof (cases "findFirst_desc (\<lambda>d. userId d = uid \<and> roleArn d = None) st")
  case (Some c)
  then have "filter (\<lambda>d. userId d = uid \<and> roleArn d = None) st \<noteq> []"
    by (auto simp: findFirst_desc_def)
  moreover have "c \<in> set st \<and> userId c = uid \<and> roleArn c = None"
    using findFirst_desc_Some [OF Some] by simp
  moreover have "bootstrap_GET w1 st = (json 200 (BootstrapBody (id_conn c) (externalId c)), st, [])"
    "bootstrap_GET w2 st = (json 200 (BootstrapBody (id_conn c) (externalId c)), st, [])"
    using Some assms(1,2) by (simp_all add: bootstrap_GET_def)
  ultimately show ?thesis by auto
next
  case None
  let ?c = "pending_row w1 uid"
  have f: "filter (\<lambda>d. userId d = uid \<and> roleArn d = None) st = []"
    using None by (simp add: findFirst_desc_None)
  have "\<exists>r. create_conn st ?c = Inr r"
    using assms(1,3) None
    by (cases "create_conn st ?c") (simp_all add: bootstrap_GET_def json_def)
  then have cr: "create_conn st ?c = Inr (?c, st @ [?c])"
    using create_conn_Inr by (metis surj_pair)
  then have one: "bootstrap_GET w1 st
      = (json 200 (BootstrapBody (id_conn ?c) (externalId ?c)), st @ [?c], [])"
    using assms(1) None by (simp add: bootstrap_GET_def)
  have "findFirst_desc (\<lambda>d. userId d = uid \<and> roleArn d = None) (st @ [?c]) = Some ?c"
    using f by (simp add: findFirst_desc_def pending_row_def)
  then have two: "bootstrap_GET w2 (st @ [?c])
      = (json 200 (BootstrapBody (id_conn ?c) (externalId ?c)), st @ [?c], [])"
    using assms(2) by (simp add: bootstrap_GET_def)
  have "userId ?c = uid \<and> roleArn ?c = None \<and> externalId ?c = random_externalId w1"
    by (simp add: pending_row_def)
  with one two f show ?thesis by auto
qed

theorem bootstrap_idempotent_witness:
  "truthy (session_user alice_world) = Some ''alice''
   \<and> truthy (session_user alice_later) = Some ''alice''
   \<and> status (fst (bootstrap_GET alice_world [bob_verified])) = 200
   \<and> bootstrap_GET alice_world [bob_verified]
     = (json 200 (BootstrapBody ''c2'' ''ext-2''),
        [bob_verified, pending_row alice_world ''alice''], [])
   \<and> bootstrap_GET alice_later (fst (snd (bootstrap_GET alice_world [bob_verified])))
     = (json 200 (BootstrapBody ''c2'' ''ext-2''),
        [bob_verified, pending_row alice_world ''alice''], [])"
proof -
  have a: "truthy (session_user alice_world) = Some ''alice''"
    by (simp add: alice_world_def truthy_def)
  have b: "truthy (session_user alice_later) = Some ''alice''"
    by (simp add: alice_world_def alice_later_def truthy_def)
  have c: "status (fst (bootstrap_GET alice_world [bob_verified])) = 200"
    by (simp add: bootstrap_GET_def sample_defs route_defs)
  have f: "filter (\<lambda>d. userId d = ''alice'' \<and> roleArn d = None) [bob_verified] = []"
    by (simp add: bob_verified_def)
  have p: "id_conn (pending_row alice_world ''alice'') = ''c2''"
    "externalId (pending_row alice_world ''alice'') = ''ext-2''"
    by (simp_all add: pending_row_def alice_world_def)
  from bootstrap_idempotent [OF a b c] f p a b c show ?thesis by auto
qed

section \<open>The life of a row\<close>

lemma same_id_same_row:
  assumes "distinct (map id_conn st)" "c \<in> set st" "d \<in> set st" "id_conn c = id_conn d"
  shows "c = d"
  using assms by (meson distinct_map inj_onD)

lemma evolves_refl: "distinct (map id_conn st) \<Longrightarrow> evolves st st"
  unfolding evolves_def using same_id_same_row by fastforce

lemma evolves_mono: "set st \<subseteq> set st1 \<Longrightarrow> evolves st1 st2 \<Longrightarrow> evolves st st2"
  unfolding evolves_def by (meson subsetD)

lemma create_conn_distinct:
  assumes "distinct (map id_conn st)" "create_conn st c = Inr (d, st')"
  shows "distinct (map id_conn st') \<and> set st \<subseteq> set st' \<and> st' = st @ [c] \<and> d = c
         \<and> id_conn c \<notin> id_conn ` set st"
proof -
  from assms(2) have a: "d = c" "st' = st @ [c]" "\<not> list_ex (clashes c) st"
    using create_conn_Inr by blast+
  from a(3) have "id_conn c \<notin> id_conn ` set st"
    by (auto simp: list_ex_iff clashes_def)
  with assms(1) a show ?thesis by auto
qed

lemma find_id_row:
  assumes "distinct (map id_conn st)" "conn \<in> set st"
  shows "find (\<lambda>c. id_conn c = id_conn conn) st = Some conn"
proof (cases "find (\<lambda>c. id_conn c = id_conn conn) st")
  case None
  then show ?thesis using assms(2) by (auto simp: find_None_iff)
next
  case (Some d)
  then have "d \<in> set st" "id_conn d = id_conn conn"
    by (auto simp: find_Some_iff)
  then show ?thesis using same_id_same_row [OF assms(1) _ assms(2)] Some by simp
qed

lemma delete_conn_evolves:
  assumes "distinct (map id_conn st)" "conn \<in> set st" "roleArn conn = None"
    and "delete_conn st (id_conn conn) = Inr (d, st')"
  shows "evolves st st' \<and> set st' \<subseteq> set st"
proof -
  have "delete_conn st (id_conn conn)
        = Inr (conn, filter (\<lambda>d. id_conn d \<noteq> id_conn conn) st)"
    unfolding delete_conn_def by (simp add: find_id_row [OF assms(1,2)])
  with assms(4) have st': "st' = filter (\<lambda>d. id_conn d \<noteq> id_conn conn) st"
    by (metis Inr_inject prod.inject)
  have d: "distinct (map id_conn st')"
    unfolding st' using assms(1) by (simp add: distinct_map_filter)
  have keep: "id_conn c \<in> id_conn ` set st'" if "c \<in> set st" "roleArn c \<noteq> None" for c
  proof -
    have "id_conn c \<noteq> id_conn conn"
      using same_id_same_row [OF assms(1) that(1) assms(2)] that(2) assms(3) by auto
    then show ?thesis unfolding st' using that(1) by auto
  qed
  have sub: "set st' \<subseteq> set st" unfolding st' by auto
  have same: "externalId c' = externalId c \<and> userId c' = userId c
            \<and> (roleArn c \<noteq> None \<longrightarrow> roleArn c' \<noteq> None)"
    if "c \<in> set st" "c' \<in> set st'" "id_conn c' = id_conn c" for c c'
  proof -
    have "c' \<in> set st" using that(2) sub by blast
    then have "c' = c" using same_id_same_row [OF assms(1) _ that(1) that(3)] by simp
    then show ?thesis by simp
  qed
  have "evolves st st'" unfolding evolves_def using d keep same by blast
  with sub show ?thesis by simp
qed

lemma update_conn_evolves:
  assumes "distinct (map id_conn st)"
    and "update_conn st i f = Inr (d, st')"
    and "\<And>c. id_conn (f c) = id_conn c \<and> externalId (f c) = externalId c
              \<and> userId (f c) = userId c \<and> roleArn (f c) \<noteq> None"
  shows "evolves st st' \<and> id_conn ` set st' = id_conn ` set st"
proof -
  have st': "st' = map (\<lambda>d. if id_conn d = i then f d else d) st"
    using assms(2) by (auto simp: update_conn_def split: option.splits if_splits)
  have ids: "map id_conn st' = map id_conn st"
    unfolding st' using assms(3) by (induction st) auto
  then have d: "distinct (map id_conn st')" using assms(1) by simp
  have img: "id_conn ` set st' = id_conn ` set st"
    using ids by (metis list.set_map)
  have "externalId c' = externalId c \<and> userId c' = userId c
            \<and> (roleArn c \<noteq> None \<longrightarrow> roleArn c' \<noteq> None)"
    if "c \<in> set st" "c' \<in> set st'" "id_conn c' = id_conn c" for c c'
  proof -
    from that(2) obtain e where e: "e \<in> set st" "c' = (if id_conn e = i then f e else e)"
      unfolding st' by auto
    then have "id_conn e = id_conn c" using that(3) assms(3) by (auto split: if_splits)
    then have "e = c" using same_id_same_row [OF assms(1) e(1) that(1)] by simp
    then show ?thesis using e(2) assms(3) by auto
  qed
  then have "evolves st st'" unfolding evolves_def using d img by blast
  with img show ?thesis by simp
qed

lemma persist_evolves:
  assumes "distinct (map id_conn st)" "conn \<in> set st"
    and "persist w uid role nm conn st = Inr (c, st')"
  shows "evolves st st' \<and> id_conn ` set st' \<subseteq> id_conn ` set st"
proof -
  let ?ex = "findFirst (\<lambda>c. userId c = uid \<and> roleArn c = Some role) st"
  let ?reuse = "case ?ex of None \<Rightarrow> None
                | Some ex \<Rightarrow> (if id_conn ex \<noteq> id_conn conn then Some ex else None)"
  show ?thesis
  proof (cases ?reuse)
    case None
    then obtain n where "update_conn st (id_conn conn)
               (\<lambda>c. c\<lparr>roleArn := Some role, name_conn := n\<rparr>) = Inr (c, st')"
      using assms(3) by (auto simp: persist_def split: sum.splits)
    from update_conn_evolves [OF assms(1) this] show ?thesis by simp
  next
    case (Some ex)
    show ?thesis
    proof (cases "roleArn conn = None")
      case True
      then obtain d where "delete_conn st (id_conn conn) = Inr (d, st')"
        using assms(3) Some by (auto simp: persist_def split: sum.splits)
      from delete_conn_evolves [OF assms(1,2) True this] show ?thesis by auto
    next
      case False
      then obtain y where "roleArn conn = Some y" by auto
      then have "persist w uid role nm conn st = Inr (ex, st)"
        using Some by (simp add: persist_def)
      with assms(3) have "st' = st" by simp
      then show ?thesis using evolves_refl [OF assms(1)] by simp
    qed
  qed
qed

lemma create_conn_evolves:
  assumes "distinct (map id_conn st)" "create_conn st c = Inr (d, st')"
  shows "evolves st st' \<and> id_conn ` set st' \<subseteq> insert (id_conn c) (id_conn ` set st)"
proof -
  from create_conn_distinct [OF assms] have
    h: "distinct (map id_conn st')" "st' = st @ [c]" "id_conn c \<notin> id_conn ` set st"
    by blast+
  have same: "externalId c' = externalId c0 \<and> userId c' = userId c0
            \<and> (roleArn c0 \<noteq> None \<longrightarrow> roleArn c' \<noteq> None)"
    if "c0 \<in> set st" "c' \<in> set st'" "id_conn c' = id_conn c0" for c0 c'
  proof -
    have "c' \<noteq> c" using that(1,3) h(3) by auto
    then have "c' \<in> set st" using that(2) h(2) by simp
    then have "c' = c0" using same_id_same_row [OF assms(1) _ that(1) that(3)] by simp
    then show ?thesis by simp
  qed
  have keep: "id_conn c0 \<in> id_conn ` set st'" if "c0 \<in> set st" for c0
    using that h(2) by simp
  have "evolves st st'" unfolding evolves_def using h(1) same keep by blast
  moreover have "id_conn ` set st' \<subseteq> insert (id_conn c) (id_conn ` set st)"
    using h(2) by auto
  ultimately show ?thesis by simp
qed

lemma evolves_ids:
  "evolves st st' \<Longrightarrow> distinct (map id_conn st')"
  by (simp add: evolves_def)

text \<open>
  Two steps compose when the first only appends rows: every row of \<open>st\<close> is still a
  row of \<open>st1\<close>.
\<close>

lemma resolve_then_persist:
  assumes "distinct (map id_conn st)"
    and "resolve_target w uid cid st = Inr (conn, st1)"
  shows "evolves st st1 \<and> set st \<subseteq> set st1 \<and> conn \<in> set st1
         \<and> id_conn ` set st1 \<subseteq> insert (new_id w) (id_conn ` set st)"
proof -
  from resolve_target_cases [OF assms(2)] show ?thesis
  proof
    assume "st1 = st \<and> conn \<in> set st \<and> userId conn = uid"
    then show ?thesis using evolves_refl [OF assms(1)] by auto
  next
    assume "create_conn st (pending_row w uid) = Inr (conn, st1)
            \<and> filter (\<lambda>d. userId d = uid \<and> roleArn d = None) st = []"
    then have cr: "create_conn st (pending_row w uid) = Inr (conn, st1)" by simp
    from create_conn_evolves [OF assms(1) cr] create_conn_distinct [OF assms(1) cr]
    show ?thesis by (auto simp: pending_row_def)
  qed
qed

lemma verify_role_store_cases:
  "fst (snd (verify_role w uid role nm cid st)) = st
   \<or> (\<exists>conn st1. resolve_target w uid cid st = Inr (conn, st1)
        \<and> (fst (snd (verify_role w uid role nm cid st)) = st1
            \<or> (\<exists>c. persist w uid role nm conn st1
                  = Inr (c, fst (snd (verify_role w uid role nm cid st))))))"
  unfolding verify_role_def
  by (auto split: sum.splits prod.splits)

lemma verify_store_cases:
  "fst (snd (verify_POST w request st)) = st
   \<or> (\<exists>uid role nm cid conn st1. resolve_target w uid cid st = Inr (conn, st1)
        \<and> (fst (snd (verify_POST w request st)) = st1
            \<or> (\<exists>c. persist w uid role nm conn st1
                  = Inr (c, fst (snd (verify_POST w request st))))))"
proof -
  from verify_POST_cases [of w request st] show ?thesis
  proof
    assume "verify_POST w request st = (fst (verify_POST w request st), st, [])
            \<and> (\<exists>e d. body (fst (verify_POST w request st)) = ErrorBody e d)
            \<and> status (fst (verify_POST w request st)) \<in> {400, 401, 500}"
    then have "fst (snd (verify_POST w request st)) = st" by (metis fst_conv snd_conv)
    then show ?thesis by simp
  next
    assume "\<exists>uid parsed role.
         truthy (session_user w) = Some uid \<and> request = Parsed parsed \<and> parsed \<noteq> JNull
         \<and> member parsed ''roleArn'' = Some (JString role)
         \<and> verify_POST w request st
             = verify_role w uid role (member parsed ''name'') (member parsed ''connectionId'') st"
    then obtain uid parsed role where
      "verify_POST w request st
         = verify_role w uid role (member parsed ''name'') (member parsed ''connectionId'') st"
      by blast
    then show ?thesis
      using verify_role_store_cases [of w uid role "member parsed ''name''"
          "member parsed ''connectionId''" st]
      by metis
  qed
qed

lemma verify_evolves:
  assumes "distinct (map id_conn st)"
  shows "evolves st (fst (snd (verify_POST w request st)))
         \<and> id_conn ` set (fst (snd (verify_POST w request st)))
             \<subseteq> insert (new_id w) (id_conn ` set st)"
proof -
  let ?after = "fst (snd (verify_POST w request st))"
  from verify_store_cases [of w request st] consider
    (same) "?after = st"
    | (resolved) uid cid conn st1 where
        "resolve_target w uid cid st = Inr (conn, st1)" "?after = st1"
    | (persisted) uid cid conn st1 role nm c where
        "resolve_target w uid cid st = Inr (conn, st1)"
        "persist w uid role nm conn st1 = Inr (c, ?after)"
    by blast
  then show ?thesis
  proof cases
    case same
    then show ?thesis using evolves_refl [OF assms] by auto
  next
    case resolved
    from resolve_then_persist [OF assms resolved(1)] resolved(2) show ?thesis by simp
  next
    case persisted
    from resolve_then_persist [OF assms persisted(1)] have
      r: "evolves st st1" "set st \<subseteq> set st1" "conn \<in> set st1"
         "id_conn ` set st1 \<subseteq> insert (new_id w) (id_conn ` set st)"
      by blast+
    from persist_evolves [OF evolves_ids [OF r(1)] r(3) persisted(2)] have
      p: "evolves st1 ?after" "id_conn ` set ?after \<subseteq> id_conn ` set st1"
      by blast+
    from evolves_mono [OF r(2) p(1)] p(2) r(4) show ?thesis by blast
  qed
qed

lemma bootstrap_evolves:
  assumes "distinct (map id_conn st)"
  shows "evolves st (fst (snd (bootstrap_GET w st)))
         \<and> id_conn ` set (fst (snd (bootstrap_GET w st)))
             \<subseteq> insert (new_id w) (id_conn ` set st)"
proof -
  let ?after = "fst (snd (bootstrap_GET w st))"
  have "?after = st \<or> (\<exists>uid c. create_conn st (pending_row w uid) = Inr (c, ?after))"
    unfolding bootstrap_GET_def by (auto split: option.splits sum.splits)
  then show ?thesis
  proof
    assume "?after = st"
    then show ?thesis using evolves_refl [OF assms] by auto
  next
    assume "\<exists>uid c. create_conn st (pending_row w uid) = Inr (c, ?after)"
    then obtain uid c where cr: "create_conn st (pending_row w uid) = Inr (c, ?after)"
      by blast
    from create_conn_evolves [OF assms cr] show ?thesis by (simp add: pending_row_def)
  qed
qed

lemma buckets_store: "fst (snd (buckets_GET w cid st)) = st"
  unfolding buckets_GET_def by (auto split: option.splits sum.splits prod.splits)

lemma presign_store: "fst (snd (presign_POST w rq st)) = st"
  unfolding presign_POST_def
  by (auto split: option.splits sum.splits prod.splits request_body.splits)

lemma objects_store: "fst (snd (objects_GET w q st)) = st"
  unfolding objects_GET_def Let_def by (auto split: option.splits sum.splits prod.splits)

lemma handle_evolves:
  assumes "distinct (map id_conn st)"
  shows "evolves st (fst (snd (handle w rq st)))
         \<and> id_conn ` set (fst (snd (handle w rq st)))
             \<subseteq> insert (new_id w) (id_conn ` set st)"
proof (cases rq)
  case Bootstrap
  then show ?thesis using bootstrap_evolves [OF assms] by (simp add: handle_def)
next
  case (Verify b)
  then show ?thesis using verify_evolves [OF assms] by (simp add: handle_def)
next
  case (Buckets_of cid)
  then show ?thesis using evolves_refl [OF assms] by (auto simp add: handle_def buckets_store)
next
  case (Objects_of q)
  then show ?thesis using evolves_refl [OF assms] by (auto simp add: handle_def objects_store)
next
  case (Presign b)
  then show ?thesis using evolves_refl [OF assms] by (auto simp add: handle_def presign_store)
qed


lemma run_distinct: "distinct (map id_conn st) \<Longrightarrow> distinct (map id_conn (run rs st))"
proof (induction rs arbitrary: st)
  case Nil
  then show ?case by simp
next
  case (Cons p rs)
  obtain w rq where p: "p = (w, rq)" by (cases p)
  have "distinct (map id_conn (fst (snd (handle w rq st))))"
    using handle_evolves [OF Cons.prems] evolves_ids by blast
  from Cons.IH [OF this] show ?case by (simp add: p)
qed

lemma run_verified_kept:
  assumes "distinct (map id_conn st)" "c \<in> set st" "roleArn c \<noteq> None"
  shows "\<exists>c'\<in>set (run rs st). id_conn c' = id_conn c \<and> externalId c' = externalId c
            \<and> userId c' = userId c \<and> roleArn c' \<noteq> None"
  using assms
proof (induction rs arbitrary: st c)
  case Nil
  then show ?case by auto
next
  case (Cons p rs)
  obtain w rq where p: "p = (w, rq)" by (cases p)
  let ?st' = "fst (snd (handle w rq st))"
  have ev: "evolves st ?st'" using handle_evolves [OF Cons.prems(1)] by blast
  then have "id_conn c \<in> id_conn ` set ?st'"
    using Cons.prems(2,3) unfolding evolves_def by blast
  then obtain c1 where c1: "c1 \<in> set ?st'" "id_conn c1 = id_conn c" by auto
  then have k: "externalId c1 = externalId c" "userId c1 = userId c" "roleArn c1 \<noteq> None"
    using ev Cons.prems(2,3) unfolding evolves_def by blast+
  from Cons.IH [OF evolves_ids [OF ev] c1(1) k(3)] obtain c' where
    "c' \<in> set (run rs ?st')" "id_conn c' = id_conn c1" "externalId c' = externalId c1"
    "userId c' = userId c1" "roleArn c' \<noteq> None"
    by blast
  then show ?case using c1(2) k by (auto simp: p)
qed

lemma run_absent:
  assumes "distinct (map id_conn st)" "x \<notin> id_conn ` set st"
    and "\<forall>p\<in>set rs. new_id (fst p) \<noteq> x"
  shows "x \<notin> id_conn ` set (run rs st)"
  using assms
proof (induction rs arbitrary: st)
  case Nil
  then show ?case by simp
next
  case (Cons p rs)
  obtain w rq where p: "p = (w, rq)" by (cases p)
  let ?st' = "fst (snd (handle w rq st))"
  note h = handle_evolves [OF Cons.prems(1), of w rq]
  have ev: "evolves st ?st'" using h by (rule conjunct1)
  have sub: "id_conn ` set ?st' \<subseteq> insert (new_id w) (id_conn ` set st)"
    using h by (rule conjunct2)
  have "new_id w \<noteq> x" using Cons.prems(3) p by simp
  then have absent: "x \<notin> id_conn ` set ?st'" using sub Cons.prems(2) by auto
  have fresh: "\<forall>p\<in>set rs. new_id (fst p) \<noteq> x" using Cons.prems(3) by simp
  have "x \<notin> id_conn ` set (run rs ?st')"
    by (rule Cons.IH [OF evolves_ids [OF ev] absent fresh])
  then show ?case by (simp add: p)
qed

lemma run_row_kept:
  assumes "distinct (map id_conn st)" "c \<in> set st"
    and "\<forall>p\<in>set rs. new_id (fst p) \<noteq> id_conn c"
    and "c' \<in> set (run rs st)" "id_conn c' = id_conn c"
  shows "externalId c' = externalId c \<and> (roleArn c \<noteq> None \<longrightarrow> roleArn c' \<noteq> None)"
  using assms
proof (induction rs arbitrary: st c)
  case Nil
  then show ?case using same_id_same_row by fastforce
next
  case (Cons p rs)
  obtain w rq where p: "p = (w, rq)" by (cases p)
  let ?st' = "fst (snd (handle w rq st))"
  have ev: "evolves st ?st'" using handle_evolves [OF Cons.prems(1)] by blast
  have d': "distinct (map id_conn ?st')" using ev by (rule evolves_ids)
  have fresh: "\<forall>p\<in>set rs. new_id (fst p) \<noteq> id_conn c" using Cons.prems(3) by simp
  have c': "c' \<in> set (run rs ?st')" using Cons.prems(4) by (simp add: p)
  show ?case
  proof (cases "id_conn c \<in> id_conn ` set ?st'")
    case True
    then obtain c1 where c1: "c1 \<in> set ?st'" "id_conn c1 = id_conn c" by auto
    then have k: "externalId c1 = externalId c" "roleArn c \<noteq> None \<longrightarrow> roleArn c1 \<noteq> None"
      using ev Cons.prems(2) unfolding evolves_def by blast+
    have "externalId c' = externalId c1 \<and> (roleArn c1 \<noteq> None \<longrightarrow> roleArn c' \<noteq> None)"
      using Cons.IH [OF d' c1(1) _ c'] fresh c1(2) Cons.prems(5) by simp
    then show ?thesis using k by simp
  next
    case False
    from run_absent [OF d' False fresh] c' Cons.prems(5) have False by (metis image_eqI)
    then show ?thesis by simp
  qed
qed

text \<open>
  C4, as the specification states it, fails in its first clause: the role ARN of a row
  does not change only from NULL to a role. Verify on the id of a verified row, with a
  second role the provider also trusts, rewrites the row's role ARN from one role to
  another (the update is not guarded by the role ARN being NULL).
\<close>

theorem verified_role_replaced_counterexample:
  "roleArn alice_verified = Some ''arn:aws:iam::1:role/Demo''
   \<and> ''arn:aws:iam::1:role/Other'' \<noteq> ''arn:aws:iam::1:role/Demo''
   \<and> run [(alice_world\<lparr>sts_send := (\<lambda>_. Inr (Some demo_credentials))\<rparr>,
            Verify (body_of [(''roleArn'', ''arn:aws:iam::1:role/Other''),
                             (''connectionId'', ''c0'')]))]
        [alice_verified]
     = [alice_verified\<lparr>roleArn := Some ''arn:aws:iam::1:role/Other''\<rparr>]"
  by (simp add: handle_def sample_defs route_defs)

text \<open>
  C4, amended: start from a table whose ids are distinct and serve any sequence of
  requests. Whatever request comes next, a row that keeps its id across that request
  keeps its External ID, and if its role ARN was set it is still set (to the same or
  to another role ARN, never to NULL). A verified row of the starting table is still
  there after the whole sequence, verified and with the same External ID. When the
  database issues none of the later ids twice, every row of the starting table that
  is found again after the sequence has its External ID, and a set role ARN if it had
  one.
\<close>

theorem roleArn_never_reverts:
  assumes "distinct (map id_conn st)"
  shows "(\<forall>c\<in>set (run rs st). \<forall>c'\<in>set (fst (snd (handle w rq (run rs st)))).
            id_conn c' = id_conn c \<longrightarrow>
            externalId c' = externalId c \<and> (roleArn c \<noteq> None \<longrightarrow> roleArn c' \<noteq> None))
       \<and> (\<forall>c\<in>set st. roleArn c \<noteq> None \<longrightarrow>
            (\<exists>c'\<in>set (run rs st). id_conn c' = id_conn c \<and> externalId c' = externalId c
                \<and> roleArn c' \<noteq> None))
       \<and> (\<forall>c\<in>set st. (\<forall>p\<in>set rs. new_id (fst p) \<noteq> id_conn c) \<longrightarrow>
            (\<forall>c'\<in>set (run rs st). id_conn c' = id_conn c \<longrightarrow>
               externalId c' = externalId c \<and> (roleArn c \<noteq> None \<longrightarrow> roleArn c' \<noteq> None)))"
proof -
  have d: "distinct (map id_conn (run rs st))" using assms by (rule run_distinct)
  have "evolves (run rs st) (fst (snd (handle w rq (run rs st))))"
    using handle_evolves [OF d] by blast
  then have one: "\<forall>c\<in>set (run rs st). \<forall>c'\<in>set (fst (snd (handle w rq (run rs st)))).
            id_conn c' = id_conn c \<longrightarrow>
            externalId c' = externalId c \<and> (roleArn c \<noteq> None \<longrightarrow> roleArn c' \<noteq> None)"
    unfolding evolves_def by blast
  have two: "\<forall>c\<in>set st. roleArn c \<noteq> None \<longrightarrow>
            (\<exists>c'\<in>set (run rs st). id_conn c' = id_conn c \<and> externalId c' = externalId c
                \<and> roleArn c' \<noteq> None)"
    using run_verified_kept [OF assms] by blast
  have three: "\<forall>c\<in>set st. (\<forall>p\<in>set rs. new_id (fst p) \<noteq> id_conn c) \<longrightarrow>
            (\<forall>c'\<in>set (run rs st). id_conn c' = id_conn c \<longrightarrow>
               externalId c' = externalId c \<and> (roleArn c \<noteq> None \<longrightarrow> roleArn c' \<noteq> None))"
    using run_row_kept [OF assms] by blast
  from one two three show ?thesis by blast
qed

theorem roleArn_never_reverts_witness:
  "distinct (map id_conn sample_store)
   \<and> bob_verified \<in> set sample_store
   \<and> roleArn bob_verified \<noteq> None
   \<and> run [(alice_world, Verify (body_of [(''roleArn'', ''arn:aws:iam::1:role/Demo'')]))] sample_store
     = [bob_verified, alice_pending\<lparr>roleArn := Some ''arn:aws:iam::1:role/Demo''\<rparr>]
   \<and> (\<exists>c'. c' \<in> set (run [(alice_world, Verify (body_of [(''roleArn'', ''arn:aws:iam::1:role/Demo'')]))]
                        sample_store)
          \<and> id_conn c' = id_conn bob_verified \<and> externalId c' = externalId bob_verified
          \<and> roleArn c' \<noteq> None)"
proof -
  let ?rs = "[(alice_world, Verify (body_of [(''roleArn'', ''arn:aws:iam::1:role/Demo'')]))]"
  have d: "distinct (map id_conn sample_store)"
    by (simp add: sample_defs)
  have h: "handle alice_world (Verify (body_of [(''roleArn'', ''arn:aws:iam::1:role/Demo'')])) sample_store
           = (json 200 (verified_body (alice_pending\<lparr>roleArn := Some ''arn:aws:iam::1:role/Demo''\<rparr>)),
              [bob_verified, alice_pending\<lparr>roleArn := Some ''arn:aws:iam::1:role/Demo''\<rparr>],
              [StsAssumeRole \<lparr>RoleArn = Some ''arn:aws:iam::1:role/Demo'',
                              RoleSessionName = ''s3-helper-20'', ExternalId = ''ext-1'',
                              DurationSeconds = 3600\<rparr>,
               S3ListBuckets demo_credentials])"
    by (simp add: handle_def sample_defs route_defs)
  have r: "run ?rs sample_store
           = [bob_verified, alice_pending\<lparr>roleArn := Some ''arn:aws:iam::1:role/Demo''\<rparr>]"
    by (simp add: h)
  have v: "roleArn bob_verified \<noteq> None"
    by (simp add: sample_defs)
  have m: "bob_verified \<in> set sample_store"
    by (simp add: sample_store_def)
  note t = roleArn_never_reverts [OF d, of ?rs alice_later Bootstrap]
  from t have "\<forall>c\<in>set sample_store. roleArn c \<noteq> None \<longrightarrow>
            (\<exists>c'\<in>set (run ?rs sample_store). id_conn c' = id_conn c \<and> externalId c' = externalId c
                \<and> roleArn c' \<noteq> None)"
    by (rule conjunct1 [OF conjunct2])
  with m v have "\<exists>c'. c' \<in> set (run ?rs sample_store)
          \<and> id_conn c' = id_conn bob_verified \<and> externalId c' = externalId bob_verified
          \<and> roleArn c' \<noteq> None"
    by blast
  with d m v r show ?thesis by blast
qed

section \<open>Pending connections on the S3 routes\<close>

lemmas s3_route_defs = buckets_GET_def presign_POST_def objects_GET_def fetch_connection_def
  no_connection_def not_verified_def listObjects_def generatePresignedUploadUrl_def expiry_def
  presign_failed_def

text \<open>The buckets route and the presigned-URL route stop at a pending connection.\<close>

lemma buckets_pending_409:
  assumes "truthy (session_user w) = Some uid"
    and "fetch_connection w uid (map_option JString cid) st = Inr (Some conn)"
    and "roleArn conn = None"
  shows "buckets_GET w cid st = (not_verified, st, [])"
  using assms by (simp add: buckets_GET_def truthy_def)

lemma presign_pending_409:
  assumes "truthy (session_user w) = Some uid" "parsed \<noteq> JNull"
    and "truthy_json (member parsed ''bucket'') = Some b"
    and "truthy_json (member parsed ''key'') = Some k"
    and "fetch_connection w uid (member parsed ''connectionId'') st = Inr (Some conn)"
    and "roleArn conn = None"
  shows "presign_POST w (Parsed parsed) st = (not_verified, st, [])"
  using assms by (simp add: presign_POST_def truthy_def)

text \<open>The objects route never answers 409.\<close>

lemma objects_never_409: "status (fst (objects_GET w q st)) \<noteq> 409"
  unfolding objects_GET_def Let_def
  by (auto simp: json_def no_connection_def split: option.splits sum.splits prod.splits)

text \<open>
  C5 fails on the objects route: a signed-in user whose only connection is pending asks
  for the objects of a bucket; the route has no test of the role ARN, calls the provider
  with a NULL role ARN and answers 500 when the provider refuses. The buckets route
  answers 409 on the same table without a provider call.
\<close>

theorem objects_pending_reaches_provider:
  "fetch_connection alice_world ''alice'' None sample_store = Inr (Some alice_pending)
   \<and> roleArn alice_pending = None
   \<and> objects_GET alice_world
        \<lparr>q_bucket = Some ''photos'', q_prefix = None, q_maxKeys = None, q_connectionId = None\<rparr>
        sample_store
     = (json 500
          (ErrorBody ''Failed to list objects'' (Some ''Failed to assume role: AccessDenied'')),
        sample_store,
        [StsAssumeRole \<lparr>RoleArn = None, RoleSessionName = ''s3-helper-20'',
                        ExternalId = ''ext-1'', DurationSeconds = 3600\<rparr>])
   \<and> buckets_GET alice_world None sample_store = (not_verified, sample_store, [])
   \<and> status not_verified = 409"
  by (simp add: sample_defs s3_route_defs assumeRole_def getBaseCredentials_def truthy_def
      truthy_json_def findFirst_desc_def json_def)

section \<open>Absent members of provider responses\<close>

text \<open>
  C10: when the provider's response has no bucket entries, \<^verbatim>\<open>listBuckets\<close> returns the
  empty list; when it has neither contents nor a truncation flag, \<^verbatim>\<open>listObjects\<close>
  returns no objects and \<open>isTruncated = False\<close>, passing the continuation token through.
  Neither is an error.
\<close>

theorem provider_lists_normalised:
  "(s3_list_buckets w creds = Inr response \<and> (Buckets response = None \<or> Buckets response = Some [])
      \<longrightarrow> fst (listBuckets w creds) = Inr [])
   \<and> (s3_list_objects w creds \<lparr>Bucket = bkt, Prefix = prefix, MaxKeys = maxKeys\<rparr> = Inr out
        \<and> Contents out = None \<and> IsTruncated out = None
      \<longrightarrow> fst (listObjects w bkt prefix maxKeys (Some creds))
          = Inr \<lparr>objects = [], isTruncated = False,
                 nextContinuationToken = NextContinuationToken out\<rparr>)"
  by (auto simp: listBuckets_def listObjects_def)

theorem provider_lists_normalised_witness:
  "s3_list_buckets alice_world demo_credentials = Inr \<lparr>Buckets = None\<rparr>
   \<and> Buckets \<lparr>Buckets = None\<rparr> = None
   \<and> fst (listBuckets alice_world demo_credentials) = Inr []
   \<and> s3_list_objects alice_world demo_credentials \<lparr>Bucket = ''photos'', Prefix = None, MaxKeys = None\<rparr>
     = Inr \<lparr>Contents = None, IsTruncated = None, NextContinuationToken = None\<rparr>
   \<and> fst (listObjects alice_world ''photos'' None None (Some demo_credentials))
     = Inr \<lparr>objects = [], isTruncated = False, nextContinuationToken = None\<rparr>"
proof -
  have a: "s3_list_buckets alice_world demo_credentials = Inr \<lparr>Buckets = None\<rparr>"
    by (simp add: alice_world_def)
  have b: "s3_list_objects alice_world demo_credentials
             \<lparr>Bucket = ''photos'', Prefix = None, MaxKeys = None\<rparr>
           = Inr \<lparr>Contents = None, IsTruncated = None, NextContinuationToken = None\<rparr>"
    by (simp add: alice_world_def)
  from provider_lists_normalised [of alice_world demo_credentials "\<lparr>Buckets = None\<rparr>"
      "''photos''" None None "\<lparr>Contents = None, IsTruncated = None, NextContinuationToken = None\<rparr>"]
    a b
  show ?thesis by simp
qed

section \<open>Reconciliation\<close>

lemma clashes_sym: "clashes c d \<Longrightarrow> clashes d c"
  by (auto simp: clashes_def)

lemma keys_ok_append:
  "keys_ok (st @ [c]) \<longleftrightarrow> keys_ok st \<and> \<not> list_ex (clashes c) st"
proof (induction st)
  case Nil
  then show ?case by simp
next
  case (Cons a st)
  have "clashes a c \<longleftrightarrow> clashes c a" using clashes_sym by blast
  then show ?case using Cons by (auto simp: list_ex_iff)
qed

lemma keys_ok_distinct: "keys_ok st \<Longrightarrow> distinct (map id_conn st)"
proof (induction st)
  case Nil
  then show ?case by simp
next
  case (Cons a st)
  then have "id_conn a \<notin> id_conn ` set st"
    by (auto simp: list_ex_iff clashes_def)
  then show ?case using Cons by simp
qed

lemma keys_ok_clash:
  "keys_ok st \<Longrightarrow> c \<in> set st \<Longrightarrow> d \<in> set st \<Longrightarrow> clashes c d \<Longrightarrow> c = d"
proof (induction st)
  case Nil
  then show ?case by simp
next
  case (Cons a st)
  have no: "\<forall>x\<in>set st. \<not> clashes a x" using Cons.prems(1) by (simp add: list_ex_iff)
  then have no': "\<forall>x\<in>set st. \<not> clashes x a" using clashes_sym by blast
  show ?case
  proof (cases "c = a")
    case True
    then show ?thesis using no Cons.prems(3,4) by auto
  next
    case False
    then have c: "c \<in> set st" using Cons.prems(2) by simp
    show ?thesis
    proof (cases "d = a")
      case True
      then show ?thesis using no' c Cons.prems(4) by blast
    next
      case False
      then have "d \<in> set st" using Cons.prems(3) by simp
      then show ?thesis using Cons.IH c Cons.prems(1,4) by simp
    qed
  qed
qed

lemma resolve_target_keys_ok:
  assumes "keys_ok st" "resolve_target w uid cid st = Inr (conn, st1)"
  shows "keys_ok st1"
proof -
  from resolve_target_cases [OF assms(2)] show ?thesis
  proof
    assume "st1 = st \<and> conn \<in> set st \<and> userId conn = uid"
    then show ?thesis using assms(1) by simp
  next
    assume "create_conn st (pending_row w uid) = Inr (conn, st1)
            \<and> filter (\<lambda>d. userId d = uid \<and> roleArn d = None) st = []"
    then have "create_conn st (pending_row w uid) = Inr (conn, st1)" by simp
    from create_conn_Inr [OF this] show ?thesis using assms(1) by (simp add: keys_ok_append)
  qed
qed

text \<open>With the keys intact, the row \<^verbatim>\<open>findFirst\<close> returns for a user and a role is the only one.\<close>

lemma existing_by_role:
  assumes "keys_ok st" "ex \<in> set st" "userId ex = uid" "roleArn ex = Some role"
  shows "findFirst (\<lambda>c. userId c = uid \<and> roleArn c = Some role) st = Some ex"
proof (cases "findFirst (\<lambda>c. userId c = uid \<and> roleArn c = Some role) st")
  case None
  then show ?thesis using assms(2,3,4) by (auto simp: findFirst_def find_None_iff)
next
  case (Some e)
  from findFirst_Some [OF Some] have e: "e \<in> set st" "userId e = uid" "roleArn e = Some role"
    by simp_all
  then have "clashes e ex" using assms(3,4) by (simp add: clashes_def)
  from keys_ok_clash [OF assms(1) e(1) assms(2) this] Some show ?thesis by simp
qed

lemma persist_reuse:
  assumes "keys_ok st" "conn \<in> set st"
    and "ex \<in> set st" "userId ex = uid" "roleArn ex = Some role" "id_conn ex \<noteq> id_conn conn"
  shows "persist w uid role nm conn st
         = Inr (ex, if roleArn conn = None then filter (\<lambda>d. id_conn d \<noteq> id_conn conn) st else st)"
proof -
  have f: "findFirst (\<lambda>c. userId c = uid \<and> roleArn c = Some role) st = Some ex"
    using existing_by_role [OF assms(1,3,4,5)] .
  have d: "delete_conn st (id_conn conn)
           = Inr (conn, filter (\<lambda>d. id_conn d \<noteq> id_conn conn) st)"
    unfolding delete_conn_def
    by (simp add: find_id_row [OF keys_ok_distinct [OF assms(1)] assms(2)])
  show ?thesis
  proof (cases "roleArn conn")
    case None
    then show ?thesis using f d assms(6) by (simp add: persist_def)
  next
    case (Some r)
    then show ?thesis using f assms(6) by (simp add: persist_def)
  qed
qed

lemma persist_promote:
  assumes "keys_ok st" "conn \<in> set st" "userId conn = uid"
    and "\<not> list_ex (\<lambda>ex. userId ex = uid \<and> roleArn ex = Some role \<and> id_conn ex \<noteq> id_conn conn) st"
    and "name_data w nm conn = Inr n"
  shows "persist w uid role nm conn st
         = Inr (conn\<lparr>roleArn := Some role, name_conn := n\<rparr>,
                map (\<lambda>d. if id_conn d = id_conn conn
                         then d\<lparr>roleArn := Some role, name_conn := n\<rparr>
                         else d) st)"
proof -
  let ?f = "\<lambda>c. c\<lparr>roleArn := Some role, name_conn := n\<rparr>"
  let ?P = "\<lambda>c. userId c = uid \<and> roleArn c = Some role"
  have none: "\<forall>ex\<in>set st. ?P ex \<longrightarrow> id_conn ex = id_conn conn"
    using assms(4) by (auto simp: list_ex_iff)
  have reuse: "(case findFirst ?P st of None \<Rightarrow> None
                | Some ex \<Rightarrow> (if id_conn ex \<noteq> id_conn conn then Some ex else None)) = None"
  proof (cases "findFirst ?P st")
    case None
    then show ?thesis by simp
  next
    case (Some e)
    from findFirst_Some [OF Some] none have "id_conn e = id_conn conn" by blast
    then show ?thesis using Some by simp
  qed
  have fnd: "find (\<lambda>c. id_conn c = id_conn conn) st = Some conn"
    using find_id_row [OF keys_ok_distinct [OF assms(1)] assms(2)] .
  have noclash: "\<not> clashes (?f conn) d" if d: "d \<in> set st" "id_conn d \<noteq> id_conn conn" for d
  proof
    assume cl: "clashes (?f conn) d"
    have "conn \<noteq> d" using d(2) by auto
    then have nc: "\<not> clashes conn d" using keys_ok_clash [OF assms(1,2) d(1)] by blast
    from cl consider "id_conn d = id_conn conn"
      | "userId d = userId conn \<and> externalId d = externalId conn"
      | "userId d = userId conn \<and> roleArn d = Some role"
      by (auto simp: clashes_def)
    then show False
    proof cases
      case 1
      then show ?thesis using d(2) by simp
    next
      case 2
      then show ?thesis using nc by (simp add: clashes_def)
    next
      case 3
      then have "?P d" using assms(3) by simp
      then show ?thesis using none d by blast
    qed
  qed
  then have "\<not> list_ex (clashes (?f conn)) (filter (\<lambda>d. id_conn d \<noteq> id_conn conn) st)"
    by (auto simp: list_ex_iff)
  then have "update_conn st (id_conn conn) ?f
             = Inr (?f conn, map (\<lambda>d. if id_conn d = id_conn conn then ?f d else d) st)"
    unfolding update_conn_def using fnd by simp
  then show ?thesis using reuse assms(5) unfolding persist_def Let_def by simp
qed

lemma verify_after_probe:
  assumes "truthy (session_user w) = Some uid" "parsed \<noteq> JNull"
    and "truthy_json (member parsed ''roleArn'') = Some (JString role)"
    and "startsWith role ''arn:aws:iam::''" and "includes_str role '':role/''"
    and "resolve_target w uid (member parsed ''connectionId'') st = Inr (conn, st1)"
    and "fst (assumeRole w (Some role) (externalId conn)) = Inr creds"
    and "fst (listBuckets w creds) = Inr bs"
    and "persist w uid role (member parsed ''name'') conn st1 = Inr (c, st2)"
  shows "fst (verify_POST w (Parsed parsed) st) = json 200 (verified_body c)
         \<and> fst (snd (verify_POST w (Parsed parsed) st)) = st2"
proof -
  obtain tr1 where a: "assumeRole w (Some role) (externalId conn) = (Inr creds, tr1)"
    using assms(7) by (cases "assumeRole w (Some role) (externalId conn)") simp
  obtain tr2 where b: "listBuckets w creds = (Inr bs, tr2)"
    using assms(8) by (cases "listBuckets w creds") simp
  show ?thesis
    unfolding verify_POST_role [OF assms(1-3)] verify_role_def
    using assms(4-6,9) a b by simp
qed

lemma name_data_string:
  "name_data w None conn = Inr (name_conn conn)"
  "name_data w (Some (JString s)) conn = Inr (if s = [] then name_conn conn else s)"
  by (simp_all add: name_data_def truthy_json_def)

text \<open>
  C6: a signed-in user's verify request passes validation, resolves to a row, and role
  assumption and the bucket probe succeed, on a table that satisfies its keys. If the
  user has another row for the submitted role, the response carries that row, which
  stays in the table as it was (its name is not updated), and the target is removed
  from the table exactly when its role ARN is NULL. If the user has no other row for
  the role, the target is promoted in place: its role ARN becomes the submitted one,
  its name becomes the submitted name when one is supplied and non-empty (for a
  submitted name that is not a string, the name the ORM reads from it, when it accepts
  the update), its External ID and every other row stay as they were, and the response
  carries the promoted row.
\<close>

theorem verify_reconciles:
  assumes "keys_ok st"
    and "truthy (session_user w) = Some uid"
    and "parsed \<noteq> JNull"
    and "truthy_json (member parsed ''roleArn'') = Some (JString role)"
    and "startsWith role ''arn:aws:iam::''" and "includes_str role '':role/''"
    and "resolve_target w uid (member parsed ''connectionId'') st = Inr (conn, st1)"
    and "fst (assumeRole w (Some role) (externalId conn)) = Inr creds"
    and "fst (listBuckets w creds) = Inr bs"
  shows "(\<forall>ex\<in>set st1.
            userId ex = uid \<and> roleArn ex = Some role \<and> id_conn ex \<noteq> id_conn conn \<longrightarrow>
              fst (verify_POST w (Parsed parsed) st) = json 200 (verified_body ex)
            \<and> fst (snd (verify_POST w (Parsed parsed) st))
                = (if roleArn conn = None then removeAll conn st1 else st1)
            \<and> ex \<in> set (fst (snd (verify_POST w (Parsed parsed) st))))
       \<and> (\<forall>n. \<not> list_ex (\<lambda>ex. userId ex = uid \<and> roleArn ex = Some role
                              \<and> id_conn ex \<noteq> id_conn conn) st1
              \<and> name_data w (member parsed ''name'') conn = Inr n \<longrightarrow>
              fst (verify_POST w (Parsed parsed) st)
                = json 200 (verified_body (conn\<lparr>roleArn := Some role, name_conn := n\<rparr>))
            \<and> fst (snd (verify_POST w (Parsed parsed) st))
                = map (\<lambda>d. if d = conn then conn\<lparr>roleArn := Some role, name_conn := n\<rparr> else d)
                    st1)
       \<and> (member parsed ''name'' = None
            \<longrightarrow> name_data w (member parsed ''name'') conn = Inr (name_conn conn))
       \<and> (\<forall>s. member parsed ''name'' = Some (JString s)
            \<longrightarrow> name_data w (member parsed ''name'') conn
                = Inr (if s = [] then name_conn conn else s))"
proof -
  let ?after = "fst (snd (verify_POST w (Parsed parsed) st))"
  have k1: "keys_ok st1" using resolve_target_keys_ok [OF assms(1,7)] .
  have d1: "distinct (map id_conn st1)" using keys_ok_distinct [OF k1] .
  have c1: "conn \<in> set st1" "userId conn = uid"
    using resolve_target_Inr [OF assms(7)] by simp_all
  have same: "id_conn d = id_conn conn \<longleftrightarrow> d = conn" if "d \<in> set st1" for d
    using same_id_same_row [OF d1 that c1(1)] by auto
  have A: "fst (verify_POST w (Parsed parsed) st) = json 200 (verified_body ex)
            \<and> ?after = (if roleArn conn = None then removeAll conn st1 else st1)
            \<and> ex \<in> set ?after"
    if ex: "ex \<in> set st1" "userId ex = uid" "roleArn ex = Some role"
      "id_conn ex \<noteq> id_conn conn" for ex
  proof -
    have flt: "filter (\<lambda>d. id_conn d \<noteq> id_conn conn) st1 = removeAll conn st1"
      unfolding removeAll_filter_not_eq
      by (rule filter_cong) (use same in auto)
    note p = persist_reuse [OF k1 c1(1) ex, of w "member parsed ''name''"]
    from verify_after_probe [OF assms(2-9) p]
    have r: "fst (verify_POST w (Parsed parsed) st) = json 200 (verified_body ex)"
      "?after = (if roleArn conn = None then removeAll conn st1 else st1)"
      using flt by simp_all
    have "ex \<noteq> conn" using ex(4) by auto
    then have "ex \<in> set ?after" using r(2) ex(1) by simp
    with r show ?thesis by simp
  qed
  have B: "fst (verify_POST w (Parsed parsed) st)
             = json 200 (verified_body (conn\<lparr>roleArn := Some role, name_conn := n\<rparr>))
            \<and> ?after = map (\<lambda>d. if d = conn then conn\<lparr>roleArn := Some role, name_conn := n\<rparr>
                                  else d) st1"
    if none: "\<not> list_ex (\<lambda>ex. userId ex = uid \<and> roleArn ex = Some role
                              \<and> id_conn ex \<noteq> id_conn conn) st1"
      and nd: "name_data w (member parsed ''name'') conn = Inr n" for n
  proof -
    have mp: "map (\<lambda>d. if id_conn d = id_conn conn
                        then d\<lparr>roleArn := Some role, name_conn := n\<rparr> else d) st1
              = map (\<lambda>d. if d = conn then conn\<lparr>roleArn := Some role, name_conn := n\<rparr> else d)
                  st1"
      by (rule map_cong) (use same in auto)
    note p = persist_promote [OF k1 c1 none nd]
    from verify_after_probe [OF assms(2-9) p] mp show ?thesis by simp
  qed
  have C: "member parsed ''name'' = None
            \<longrightarrow> name_data w (member parsed ''name'') conn = Inr (name_conn conn)"
    by (simp add: name_data_string)
  have D: "\<forall>s. member parsed ''name'' = Some (JString s)
            \<longrightarrow> name_data w (member parsed ''name'') conn
                = Inr (if s = [] then name_conn conn else s)"
    by (simp add: name_data_string)
  from A B C D show ?thesis by blast
qed

text \<open>
  The user already has a verified row \<open>c0\<close> for the role: verify on the pending row
  \<open>c1\<close> answers with \<open>c0\<close>, keeps its name and deletes \<open>c1\<close>.
\<close>

theorem verify_reconciles_witness:
  "keys_ok [alice_verified, alice_pending]
   \<and> truthy (session_user alice_world) = Some ''alice''
   \<and> JObject [''roleArn'' \<mapsto> JString ''arn:aws:iam::1:role/Demo'', ''name'' \<mapsto> JString ''Renamed'']
       \<noteq> JNull
   \<and> truthy_json
        (member (JObject [''roleArn'' \<mapsto> JString ''arn:aws:iam::1:role/Demo'',
                          ''name'' \<mapsto> JString ''Renamed'']) ''roleArn'')
       = Some (JString ''arn:aws:iam::1:role/Demo'')
   \<and> startsWith ''arn:aws:iam::1:role/Demo'' ''arn:aws:iam::''
   \<and> includes_str ''arn:aws:iam::1:role/Demo'' '':role/''
   \<and> resolve_target alice_world ''alice''
         (member (JObject [''roleArn'' \<mapsto> JString ''arn:aws:iam::1:role/Demo'',
                           ''name'' \<mapsto> JString ''Renamed'']) ''connectionId'')
         [alice_verified, alice_pending]
       = Inr (alice_pending, [alice_verified, alice_pending])
   \<and> fst (assumeRole alice_world (Some ''arn:aws:iam::1:role/Demo'') (externalId alice_pending))
       = Inr demo_credentials
   \<and> fst (listBuckets alice_world demo_credentials) = Inr []
   \<and> alice_verified \<in> set [alice_verified, alice_pending]
   \<and> userId alice_verified = ''alice''
   \<and> roleArn alice_verified = Some ''arn:aws:iam::1:role/Demo''
   \<and> id_conn alice_verified \<noteq> id_conn alice_pending
   \<and> roleArn alice_pending = None
   \<and> fst (verify_POST alice_world
             (Parsed (JObject [''roleArn'' \<mapsto> JString ''arn:aws:iam::1:role/Demo'',
                               ''name'' \<mapsto> JString ''Renamed'']))
             [alice_verified, alice_pending])
       = json 200 (verified_body alice_verified)
   \<and> fst (snd (verify_POST alice_world
                  (Parsed (JObject [''roleArn'' \<mapsto> JString ''arn:aws:iam::1:role/Demo'',
                                    ''name'' \<mapsto> JString ''Renamed'']))
                  [alice_verified, alice_pending]))
       = removeAll alice_pending [alice_verified, alice_pending]"
proof -
  let ?p = "JObject [''roleArn'' \<mapsto> JString ''arn:aws:iam::1:role/Demo'',
                     ''name'' \<mapsto> JString ''Renamed'']"
  let ?st = "[alice_verified, alice_pending]"
  have k: "keys_ok ?st"
    by (simp add: alice_verified_def alice_pending_def clashes_def)
  have s: "truthy (session_user alice_world) = Some ''alice''"
    by (simp add: alice_world_def truthy_def)
  have n: "?p \<noteq> JNull" by simp
  have ro: "truthy_json (member ?p ''roleArn'') = Some (JString ''arn:aws:iam::1:role/Demo'')"
    by (simp add: truthy_json_def member_def)
  have sw: "startsWith ''arn:aws:iam::1:role/Demo'' ''arn:aws:iam::''"
    by (simp add: startsWith_def)
  have inc: "includes_str ''arn:aws:iam::1:role/Demo'' '':role/''"
    by (simp add: startsWith_def)
  have r: "resolve_target alice_world ''alice'' (member ?p ''connectionId'') ?st
           = Inr (alice_pending, ?st)"
    by (simp add: sample_defs route_defs)
  have a: "fst (assumeRole alice_world (Some ''arn:aws:iam::1:role/Demo'') (externalId alice_pending))
           = Inr demo_credentials"
    by (simp add: sample_defs route_defs)
  have b: "fst (listBuckets alice_world demo_credentials) = Inr []"
    by (simp add: alice_world_def listBuckets_def)
  have e: "alice_verified \<in> set ?st" "userId alice_verified = ''alice''"
    "roleArn alice_verified = Some ''arn:aws:iam::1:role/Demo''"
    "id_conn alice_verified \<noteq> id_conn alice_pending" "roleArn alice_pending = None"
    by (simp_all add: alice_verified_def alice_pending_def)
  note t = verify_reconciles [OF k s n ro sw inc r a b]
  from t have "\<forall>ex\<in>set ?st.
            userId ex = ''alice'' \<and> roleArn ex = Some ''arn:aws:iam::1:role/Demo''
            \<and> id_conn ex \<noteq> id_conn alice_pending \<longrightarrow>
              fst (verify_POST alice_world (Parsed ?p) ?st) = json 200 (verified_body ex)
            \<and> fst (snd (verify_POST alice_world (Parsed ?p) ?st))
                = (if roleArn alice_pending = None then removeAll alice_pending ?st else ?st)
            \<and> ex \<in> set (fst (snd (verify_POST alice_world (Parsed ?p) ?st)))"
    by (rule conjunct1)
  with e have "fst (verify_POST alice_world (Parsed ?p) ?st) = json 200 (verified_body alice_verified)
            \<and> fst (snd (verify_POST alice_world (Parsed ?p) ?st)) = removeAll alice_pending ?st"
    by (metis (no_types, lifting))
  with k s n ro sw inc r a b e show ?thesis by blast
qed

section \<open>What a successful verify stores and returns\<close>

lemma verify_role_200:
  assumes "status (fst (verify_role w uid role nm cid st)) = 200"
  shows "\<exists>conn st1 c st2.
           resolve_target w uid cid st = Inr (conn, st1)
         \<and> persist w uid role nm conn st1 = Inr (c, st2)
         \<and> fst (verify_role w uid role nm cid st) = json 200 (verified_body c)
         \<and> fst (snd (verify_role w uid role nm cid st)) = st2"
  using assms unfolding verify_role_def
  by (auto simp: json_def internal_error_def split: if_splits sum.splits prod.splits)

lemma verify_200:
  assumes "status (fst (verify_POST w request st)) = 200"
  shows "\<exists>uid parsed role conn st1 c st2.
           truthy (session_user w) = Some uid
         \<and> request = Parsed parsed
         \<and> member parsed ''roleArn'' = Some (JString role)
         \<and> resolve_target w uid (member parsed ''connectionId'') st = Inr (conn, st1)
         \<and> persist w uid role (member parsed ''name'') conn st1 = Inr (c, st2)
         \<and> fst (verify_POST w request st) = json 200 (verified_body c)
         \<and> fst (snd (verify_POST w request st)) = st2"
proof -
  from verify_POST_cases [of w request st] show ?thesis
  proof
    assume "verify_POST w request st = (fst (verify_POST w request st), st, [])
            \<and> (\<exists>e d. body (fst (verify_POST w request st)) = ErrorBody e d)
            \<and> status (fst (verify_POST w request st)) \<in> {400, 401, 500}"
    then show ?thesis using assms by simp
  next
    assume "\<exists>uid parsed role.
         truthy (session_user w) = Some uid \<and> request = Parsed parsed \<and> parsed \<noteq> JNull
         \<and> member parsed ''roleArn'' = Some (JString role)
         \<and> verify_POST w request st
             = verify_role w uid role (member parsed ''name'') (member parsed ''connectionId'') st"
    then obtain uid parsed role where
      h: "truthy (session_user w) = Some uid" "request = Parsed parsed"
         "member parsed ''roleArn'' = Some (JString role)"
         "verify_POST w request st
            = verify_role w uid role (member parsed ''name'') (member parsed ''connectionId'') st"
      by blast
    from verify_role_200 [of w uid role "member parsed ''name''" "member parsed ''connectionId''" st]
      assms h(4)
    obtain conn st1 c st2 where
      "resolve_target w uid (member parsed ''connectionId'') st = Inr (conn, st1)"
      "persist w uid role (member parsed ''name'') conn st1 = Inr (c, st2)"
      "fst (verify_POST w request st) = json 200 (verified_body c)"
      "fst (snd (verify_POST w request st)) = st2"
      by auto
    with h(1-3) show ?thesis by blast
  qed
qed

lemma persist_result:
  assumes "persist w uid role nm conn st = Inr (c, st')"
  shows "c \<in> set st' \<and> roleArn c = Some role"
proof -
  let ?ex = "findFirst (\<lambda>c. userId c = uid \<and> roleArn c = Some role) st"
  let ?reuse = "case ?ex of None \<Rightarrow> None
                | Some ex \<Rightarrow> (if id_conn ex \<noteq> id_conn conn then Some ex else None)"
  show ?thesis
  proof (cases ?reuse)
    case None
    then obtain n where u: "update_conn st (id_conn conn)
                              (\<lambda>c. c\<lparr>roleArn := Some role, name_conn := n\<rparr>) = Inr (c, st')"
      using assms by (auto simp: persist_def split: sum.splits)
    let ?f = "\<lambda>c. c\<lparr>roleArn := Some role, name_conn := n\<rparr>"
    from u obtain c0 where c0: "find (\<lambda>c. id_conn c = id_conn conn) st = Some c0"
      by (auto simp: update_conn_def split: option.splits)
    then have in0: "c0 \<in> set st" "id_conn c0 = id_conn conn"
      by (auto simp: find_Some_iff)
    from u c0 have r: "c = ?f c0"
      "st' = map (\<lambda>d. if id_conn d = id_conn conn then ?f d else d) st"
      by (auto simp: update_conn_def split: if_splits)
    have "?f c0 \<in> set st'" unfolding r(2) using in0 by force
    then show ?thesis using r(1) by simp
  next
    case (Some ex)
    then have e: "?ex = Some ex" "id_conn ex \<noteq> id_conn conn"
      by (auto split: option.splits if_splits)
    from findFirst_Some [OF e(1)] have ex: "ex \<in> set st" "roleArn ex = Some role" by simp_all
    have "c = ex \<and> (st' = st \<or> st' = filter (\<lambda>d. id_conn d \<noteq> id_conn conn) st)"
      using assms Some
      by (auto simp: persist_def delete_conn_def split: if_splits sum.splits option.splits)
    then show ?thesis using ex e(2) by auto
  qed
qed

text \<open>Nothing before or after the two provider calls looks at the provider.\<close>

lemma pending_row_provider:
  "pending_row (w\<lparr>sts_send := sts', s3_list_buckets := s3'\<rparr>) = pending_row w"
  by (intro ext) (simp add: pending_row_def)

lemma where_id_provider:
  "where_id (w\<lparr>sts_send := sts', s3_list_buckets := s3'\<rparr>) = where_id w"
  by (intro ext) (simp add: where_id_def split: json_value.splits)

lemma resolve_target_provider:
  "resolve_target (w\<lparr>sts_send := sts', s3_list_buckets := s3'\<rparr>) = resolve_target w"
  unfolding resolve_target_def find_by_id_def pending_row_provider where_id_provider ..

lemma name_data_provider:
  "name_data (w\<lparr>sts_send := sts', s3_list_buckets := s3'\<rparr>) = name_data w"
  by (intro ext) (simp add: name_data_def split: option.splits json_value.splits)

lemma persist_provider:
  "persist (w\<lparr>sts_send := sts', s3_list_buckets := s3'\<rparr>) = persist w"
  unfolding persist_def name_data_provider ..

text \<open>
  C8: a row has the columns id, userId, externalId, roleArn, name and createdAt and no
  other. When verify succeeds, the table it leaves and the response it sends are the
  same whatever credentials role assumption returned: under any other provider for
  which verify also succeeds, table and response are identical. The response carries
  the id, role ARN, name and creation time of one row of the table left behind, with
  the fixed message.
\<close>

theorem verify_persists_no_credentials:
  assumes "status (fst (verify_POST w request st)) = 200"
    and "status (fst (verify_POST (w\<lparr>sts_send := sts', s3_list_buckets := s3'\<rparr>) request st)) = 200"
  shows "fst (verify_POST (w\<lparr>sts_send := sts', s3_list_buckets := s3'\<rparr>) request st)
           = fst (verify_POST w request st)
       \<and> fst (snd (verify_POST (w\<lparr>sts_send := sts', s3_list_buckets := s3'\<rparr>) request st))
           = fst (snd (verify_POST w request st))
       \<and> (\<exists>c role. c \<in> set (fst (snd (verify_POST w request st)))
             \<and> roleArn c = Some role
             \<and> fst (verify_POST w request st)
                 = json 200
                     (VerifyBody
                        \<lparr>pc_id = id_conn c, pc_roleArn = role, pc_name = name_conn c,
                         pc_createdAt = createdAt c\<rparr>
                        ''AWS connection verified and saved successfully''))"
proof -
  let ?w' = "w\<lparr>sts_send := sts', s3_list_buckets := s3'\<rparr>"
  from verify_200 [OF assms(1)] obtain uid parsed role conn st1 c st2 where
    h: "truthy (session_user w) = Some uid"
       "request = Parsed parsed"
       "member parsed ''roleArn'' = Some (JString role)"
       "resolve_target w uid (member parsed ''connectionId'') st = Inr (conn, st1)"
       "persist w uid role (member parsed ''name'') conn st1 = Inr (c, st2)"
       "fst (verify_POST w request st) = json 200 (verified_body c)"
       "fst (snd (verify_POST w request st)) = st2"
    by blast
  from verify_200 [OF assms(2)] obtain uid' parsed' role' conn' st1' c' st2' where
    h': "truthy (session_user ?w') = Some uid'"
       "request = Parsed parsed'"
       "member parsed' ''roleArn'' = Some (JString role')"
       "resolve_target ?w' uid' (member parsed' ''connectionId'') st = Inr (conn', st1')"
       "persist ?w' uid' role' (member parsed' ''name'') conn' st1' = Inr (c', st2')"
       "fst (verify_POST ?w' request st) = json 200 (verified_body c')"
       "fst (snd (verify_POST ?w' request st)) = st2'"
    by blast
  have u: "uid' = uid" using h(1) h'(1) by simp
  have p: "parsed' = parsed" using h(2) h'(2) by simp
  have r: "role' = role" using h(3) h'(3) p by simp
  have "conn' = conn \<and> st1' = st1"
    using h(4) h'(4) u p by (simp add: resolve_target_provider)
  with u p r h(5) h'(5) have same: "c' = c" "st2' = st2"
    by (simp_all add: persist_provider)
  from persist_result [OF h(5)] have c: "c \<in> set st2" "roleArn c = Some role" by simp_all
  have "verified_body c
        = VerifyBody \<lparr>pc_id = id_conn c, pc_roleArn = role, pc_name = name_conn c,
                      pc_createdAt = createdAt c\<rparr>
            ''AWS connection verified and saved successfully''"
    using c(2) by (simp add: verified_body_def)
  with h(6,7) h'(6,7) same c show ?thesis by auto
qed

theorem verify_persists_no_credentials_witness:
  "status (fst (verify_POST alice_world (body_of [(''roleArn'', ''arn:aws:iam::1:role/Demo'')])
                  sample_store)) = 200
   \<and> status (fst (verify_POST
                    (alice_world
                       \<lparr>sts_send := (\<lambda>_. Inr (Some (demo_credentials
                                       \<lparr>accessKeyId := ''ASIB'', secretAccessKey := ''sk2'',
                                        sessionToken := ''tok2'', expiration := 9999\<rparr>))),
                        s3_list_buckets := (\<lambda>_. Inr \<lparr>Buckets = Some []\<rparr>)\<rparr>)
                    (body_of [(''roleArn'', ''arn:aws:iam::1:role/Demo'')]) sample_store)) = 200
   \<and> fst (snd (verify_POST
                  (alice_world
                     \<lparr>sts_send := (\<lambda>_. Inr (Some (demo_credentials
                                     \<lparr>accessKeyId := ''ASIB'', secretAccessKey := ''sk2'',
                                      sessionToken := ''tok2'', expiration := 9999\<rparr>))),
                      s3_list_buckets := (\<lambda>_. Inr \<lparr>Buckets = Some []\<rparr>)\<rparr>)
                  (body_of [(''roleArn'', ''arn:aws:iam::1:role/Demo'')]) sample_store))
     = fst (snd (verify_POST alice_world (body_of [(''roleArn'', ''arn:aws:iam::1:role/Demo'')])
                   sample_store))
   \<and> fst (snd (verify_POST alice_world (body_of [(''roleArn'', ''arn:aws:iam::1:role/Demo'')])
                  sample_store))
     = [bob_verified, alice_pending\<lparr>roleArn := Some ''arn:aws:iam::1:role/Demo''\<rparr>]
   \<and> fst (verify_POST alice_world (body_of [(''roleArn'', ''arn:aws:iam::1:role/Demo'')])
            sample_store)
     = json 200
         (VerifyBody
            \<lparr>pc_id = ''c1'', pc_roleArn = ''arn:aws:iam::1:role/Demo'',
             pc_name = ''Pending AWS connection'', pc_createdAt = 10\<rparr>
            ''AWS connection verified and saved successfully'')"
proof -
  let ?rq = "body_of [(''roleArn'', ''arn:aws:iam::1:role/Demo'')]"
  let ?sts = "\<lambda>_::assume_role_input. (Inr (Some (demo_credentials
                                       \<lparr>accessKeyId := ''ASIB'', secretAccessKey := ''sk2'',
                                        sessionToken := ''tok2'', expiration := 9999\<rparr>))
                :: string + credentials option)"
  let ?s3 = "\<lambda>_::credentials. (Inr \<lparr>Buckets = Some []\<rparr> :: string + list_buckets_output)"
  have v: "verify_POST alice_world ?rq sample_store
           = (json 200 (verified_body (alice_pending\<lparr>roleArn := Some ''arn:aws:iam::1:role/Demo''\<rparr>)),
              [bob_verified, alice_pending\<lparr>roleArn := Some ''arn:aws:iam::1:role/Demo''\<rparr>],
              [StsAssumeRole \<lparr>RoleArn = Some ''arn:aws:iam::1:role/Demo'',
                              RoleSessionName = ''s3-helper-20'', ExternalId = ''ext-1'',
                              DurationSeconds = 3600\<rparr>,
               S3ListBuckets demo_credentials])"
    by (simp add: sample_defs route_defs)
  then have a: "status (fst (verify_POST alice_world ?rq sample_store)) = 200"
    by (simp add: json_def)
  have b: "status (fst (verify_POST (alice_world\<lparr>sts_send := ?sts, s3_list_buckets := ?s3\<rparr>)
                          ?rq sample_store)) = 200"
    by (simp add: sample_defs route_defs)
  have body: "json 200 (verified_body (alice_pending\<lparr>roleArn := Some ''arn:aws:iam::1:role/Demo''\<rparr>))
      = json 200
         (VerifyBody
            \<lparr>pc_id = ''c1'', pc_roleArn = ''arn:aws:iam::1:role/Demo'',
             pc_name = ''Pending AWS connection'', pc_createdAt = 10\<rparr>
            ''AWS connection verified and saved successfully'')"
    by (simp add: verified_body_def alice_pending_def)
  from verify_persists_no_credentials [OF a b] have
    "fst (snd (verify_POST (alice_world\<lparr>sts_send := ?sts, s3_list_buckets := ?s3\<rparr>)
                 ?rq sample_store))
     = fst (snd (verify_POST alice_world ?rq sample_store))"
    by (rule conjunct1 [OF conjunct2])
  with a b v body show ?thesis by simp
qed

section \<open>Rows of other users\<close>

text \<open>Every lookup of the S3 routes, by id or by default, returns a row of the user.\<close>

lemma fetch_connection_Some:
  "fetch_connection w uid cid st = Inr (Some c) \<Longrightarrow> c \<in> set st \<and> userId c = uid"
  unfolding fetch_connection_def
  by (auto split: option.splits dest!: find_by_id_Some findFirst_desc_Some)

lemma assumeRole_trace_eq:
  "assumeRole w role ext = (r, tr) \<Longrightarrow> StsAssumeRole cmd \<in> set tr
   \<Longrightarrow> ExternalId cmd = ext \<and> RoleArn cmd = role"
  using assumeRole_trace [of cmd w role ext] by simp

lemma listObjects_trace:
  "listObjects w b p m c = (r, tr) \<Longrightarrow> StsAssumeRole cmd \<notin> set tr"
  by (auto simp: listObjects_def Let_def split: option.splits)

lemma presigned_trace:
  "generatePresignedUploadUrl w b k ct c e = (r, tr) \<Longrightarrow> StsAssumeRole cmd \<notin> set tr"
  by (auto simp: generatePresignedUploadUrl_def Let_def split: option.splits)

lemma truthy_roleArn: "truthy (roleArn c) = Some role \<Longrightarrow> roleArn c = Some role"
  by (simp add: truthy_Some)

lemma buckets_scoped:
  assumes "truthy (session_user w) = Some uid"
  shows "(StsAssumeRole cmd \<in> set (snd (snd (buckets_GET w cid st)))
            \<longrightarrow> (\<exists>c\<in>set st. userId c = uid \<and> ExternalId cmd = externalId c
                    \<and> RoleArn cmd = roleArn c))
       \<and> (body (fst (buckets_GET w cid st)) = BucketsBody bs i n r
            \<longrightarrow> (\<exists>c\<in>set st. userId c = uid \<and> id_conn c = i \<and> name_conn c = n
                    \<and> roleArn c = Some r))"
proof (cases "fetch_connection w uid (map_option JString cid) st")
  case (Inl msg)
  then show ?thesis using assms by (simp add: buckets_GET_def json_def)
next
  case (Inr found)
  show ?thesis
  proof (cases found)
    case None
    then show ?thesis using assms Inr by (simp add: buckets_GET_def json_def no_connection_def)
  next
    case (Some conn)
    then have own: "conn \<in> set st" "userId conn = uid"
      using fetch_connection_Some Inr by blast+
    show ?thesis
    proof (cases "truthy (roleArn conn)")
      case None
      then show ?thesis using assms Inr Some by (simp add: buckets_GET_def json_def not_verified_def)
    next
      case role: (Some role)
      have ra: "roleArn conn = Some role" using role by (rule truthy_roleArn)
      obtain r1 tr1 where a: "assumeRole w (Some role) (externalId conn) = (r1, tr1)"
        by (cases "assumeRole w (Some role) (externalId conn)")
      have t1: "ExternalId cmd = externalId conn \<and> RoleArn cmd = roleArn conn"
        if "StsAssumeRole cmd \<in> set tr1"
        using assumeRole_trace_eq [OF a that] ra by simp
      show ?thesis
      proof (cases r1)
        case (Inl msg)
        then show ?thesis using assms Inr Some role a t1 own
          by (auto simp: buckets_GET_def json_def)
      next
        case creds: (Inr creds)
        obtain r2 tr2 where b: "listBuckets w creds = (r2, tr2)"
          by (cases "listBuckets w creds")
        have t2: "tr2 = [S3ListBuckets creds]" using listBuckets_trace [OF b] .
        show ?thesis
        proof (cases r2)
          case (Inl msg)
          then show ?thesis using assms Inr Some role a creds b t1 t2 own
            by (auto simp: buckets_GET_def json_def)
        next
          case (Inr buckets)
          then show ?thesis
            using assms \<open>fetch_connection w uid (map_option JString cid) st = Inr found\<close>
              Some role a creds b t1 t2 own ra
            by (auto simp: buckets_GET_def json_def)
        qed
      qed
    qed
  qed
qed

lemma objects_scoped:
  assumes "truthy (session_user w) = Some uid"
  shows "(StsAssumeRole cmd \<in> set (snd (snd (objects_GET w q st)))
            \<longrightarrow> (\<exists>c\<in>set st. userId c = uid \<and> ExternalId cmd = externalId c
                    \<and> RoleArn cmd = roleArn c))
       \<and> (body (fst (objects_GET w q st)) = ObjectsBody b p os t k i n
            \<longrightarrow> (\<exists>c\<in>set st. userId c = uid \<and> id_conn c = i \<and> name_conn c = n))"
proof (cases "truthy (q_bucket q)")
  case None
  then show ?thesis using assms by (simp add: objects_GET_def json_def)
next
  case bkt: (Some bkt)
  show ?thesis
  proof (cases "fetch_connection w uid (map_option JString (q_connectionId q)) st")
    case (Inl msg)
    then show ?thesis using assms bkt by (simp add: objects_GET_def json_def)
  next
    case (Inr found)
    show ?thesis
    proof (cases found)
      case None
      then show ?thesis using assms bkt Inr
        by (simp add: objects_GET_def json_def no_connection_def)
    next
      case (Some conn)
      then have own: "conn \<in> set st" "userId conn = uid"
        using fetch_connection_Some Inr by blast+
      obtain r1 tr1 where a: "assumeRole w (roleArn conn) (externalId conn) = (r1, tr1)"
        by (cases "assumeRole w (roleArn conn) (externalId conn)")
      have t1: "ExternalId cmd = externalId conn \<and> RoleArn cmd = roleArn conn"
        if "StsAssumeRole cmd \<in> set tr1"
        using assumeRole_trace_eq [OF a that] .
      show ?thesis
      proof (cases r1)
        case (Inl msg)
        then show ?thesis using assms bkt Inr Some a t1 own
          by (auto simp: objects_GET_def json_def)
      next
        case creds: (Inr creds)
        obtain r2 tr2 where
          b: "listObjects w bkt (truthy (q_prefix q))
                (map_option (parseInt10 w) (truthy (q_maxKeys q))) (Some creds) = (r2, tr2)"
          by (cases "listObjects w bkt (truthy (q_prefix q))
                (map_option (parseInt10 w) (truthy (q_maxKeys q))) (Some creds)")
        have t2: "StsAssumeRole cmd \<notin> set tr2" using listObjects_trace [OF b] .
        show ?thesis
        proof (cases r2)
          case (Inl msg)
          then show ?thesis
            using assms bkt
              \<open>fetch_connection w uid (map_option JString (q_connectionId q)) st = Inr found\<close>
              Some a creds b t1 t2 own
            by (auto simp: objects_GET_def json_def)
        next
          case (Inr result)
          then show ?thesis
            using assms bkt
              \<open>fetch_connection w uid (map_option JString (q_connectionId q)) st = Inr found\<close>
              Some a creds b t1 t2 own
            by (auto simp: objects_GET_def json_def)
        qed
      qed
    qed
  qed
qed

lemma presign_scoped:
  assumes "truthy (session_user w) = Some uid"
  shows "StsAssumeRole cmd \<in> set (snd (snd (presign_POST w rq st)))
            \<longrightarrow> (\<exists>c\<in>set st. userId c = uid \<and> ExternalId cmd = externalId c
                    \<and> RoleArn cmd = roleArn c)"
proof (cases rq)
  case (Unparsable msg)
  then show ?thesis using assms by (simp add: presign_POST_def)
next
  case (Parsed parsed)
  show ?thesis
  proof (cases "parsed = JNull")
    case True
    then show ?thesis using assms Parsed by (simp add: presign_POST_def)
  next
    case nn: False
    show ?thesis
    proof (cases "truthy_json (member parsed ''bucket'')")
      case None
      then show ?thesis using assms Parsed nn by (simp add: presign_POST_def)
    next
      case bkt: (Some bkt)
      show ?thesis
      proof (cases "truthy_json (member parsed ''key'')")
        case None
        then show ?thesis using assms Parsed nn bkt by (simp add: presign_POST_def)
      next
        case key: (Some k)
        show ?thesis
        proof (cases "fetch_connection w uid (member parsed ''connectionId'') st")
          case (Inl msg)
          then show ?thesis using assms Parsed nn bkt key by (simp add: presign_POST_def)
        next
          case (Inr found)
          show ?thesis
          proof (cases found)
            case None
            then show ?thesis using assms Parsed nn bkt key Inr by (simp add: presign_POST_def)
          next
            case (Some conn)
            then have own: "conn \<in> set st" "userId conn = uid"
              using fetch_connection_Some Inr by blast+
            show ?thesis
            proof (cases "truthy (roleArn conn)")
              case None
              then show ?thesis using assms Parsed nn bkt key Inr Some
                by (simp add: presign_POST_def)
            next
              case role: (Some role)
              have ra: "roleArn conn = Some role" using role by (rule truthy_roleArn)
              obtain r1 tr1 where a: "assumeRole w (Some role) (externalId conn) = (r1, tr1)"
                by (cases "assumeRole w (Some role) (externalId conn)")
              have t1: "ExternalId cmd = externalId conn \<and> RoleArn cmd = roleArn conn"
                if "StsAssumeRole cmd \<in> set tr1"
                using assumeRole_trace_eq [OF a that] ra by simp
              show ?thesis
              proof (cases r1)
                case (Inl msg)
                then show ?thesis using assms Parsed nn bkt key Inr Some role a t1 own
                  by (auto simp: presign_POST_def)
              next
                case creds: (Inr creds)
                obtain r2 tr2 where
                  b: "generatePresignedUploadUrl w bkt k (member parsed ''contentType'')
                        (Some creds) (expiry (member parsed ''expiresIn'')) = (r2, tr2)"
                  by (cases "generatePresignedUploadUrl w bkt k (member parsed ''contentType'')
                        (Some creds) (expiry (member parsed ''expiresIn''))")
                have t2: "StsAssumeRole cmd \<notin> set tr2" using presigned_trace [OF b] .
                show ?thesis
                  using assms Parsed nn bkt key
                    \<open>fetch_connection w uid (member parsed ''connectionId'') st = Inr found\<close>
                    Some role a creds b t1 t2 own
                  by (cases r2) (auto simp: presign_POST_def)
              qed
            qed
          qed
        qed
      qed
    qed
  qed
qed

lemma bootstrap_scoped:
  assumes "truthy (session_user w) = Some uid"
    and "body (fst (bootstrap_GET w st)) = BootstrapBody i e"
  shows "\<exists>c\<in>set (fst (snd (bootstrap_GET w st))).
           userId c = uid \<and> id_conn c = i \<and> externalId c = e"
proof (cases "findFirst_desc (\<lambda>c. userId c = uid \<and> roleArn c = None) st")
  case (Some c)
  then show ?thesis using assms findFirst_desc_Some [OF Some]
    by (auto simp: bootstrap_GET_def json_def)
next
  case None
  show ?thesis
  proof (cases "create_conn st (pending_row w uid)")
    case (Inl msg)
    then show ?thesis using assms None by (simp add: bootstrap_GET_def json_def)
  next
    case (Inr r)
    obtain c st' where r: "r = (c, st')" by (cases r)
    from create_conn_Inr [of st "pending_row w uid" c st'] Inr r
    have "c = pending_row w uid" "st' = st @ [c]" by simp_all
    then have "c \<in> set st'" "userId c = uid" by (simp_all add: pending_row_def)
    then show ?thesis using assms None Inr r by (auto simp: bootstrap_GET_def json_def)
  qed
qed

lemma foreign_id_not_found:
  assumes "distinct (map id_conn st)" "r \<in> set st" "userId r \<noteq> uid"
  shows "findFirst (\<lambda>c. id_conn c = id_conn r \<and> userId c = uid) st = None"
proof (cases "findFirst (\<lambda>c. id_conn c = id_conn r \<and> userId c = uid) st")
  case None
  then show ?thesis .
next
  case (Some c)
  from findFirst_Some [OF Some] have c: "c \<in> set st" "id_conn c = id_conn r" "userId c = uid"
    by simp_all
  from same_id_same_row [OF assms(1) c(1) assms(2) c(2)] c(3) assms(3) show ?thesis by simp
qed

lemma foreign_id_lookup:
  assumes "distinct (map id_conn st)" "r \<in> set st" "userId r \<noteq> uid"
  shows "find_by_id w uid (JString (id_conn r)) st = Inr None"
  using foreign_id_not_found [OF assms] by (simp add: find_by_id_def where_id_def)

lemma persist_keeps_others:
  assumes "persist w uid role nm conn st = Inr (c, st')"
    and "r \<in> set st" "id_conn r \<noteq> id_conn conn"
  shows "r \<in> set st'"
proof -
  have "st' = st \<or> st' = filter (\<lambda>d. id_conn d \<noteq> id_conn conn) st
        \<or> (\<exists>n. st' = map (\<lambda>d. if id_conn d = id_conn conn
                               then d\<lparr>roleArn := Some role, name_conn := n\<rparr> else d) st)"
    using assms(1) unfolding persist_def Let_def delete_conn_def update_conn_def
    by (auto split: option.splits if_splits sum.splits)
  then show ?thesis using assms(2,3) by force
qed

lemma persist_owner:
  assumes "persist w uid role nm conn st = Inr (c, st')"
    and "distinct (map id_conn st)" "conn \<in> set st" "userId conn = uid"
  shows "userId c = uid"
proof -
  let ?ex = "findFirst (\<lambda>c. userId c = uid \<and> roleArn c = Some role) st"
  let ?reuse = "case ?ex of None \<Rightarrow> None
                | Some ex \<Rightarrow> (if id_conn ex \<noteq> id_conn conn then Some ex else None)"
  show ?thesis
  proof (cases ?reuse)
    case None
    then obtain n where "update_conn st (id_conn conn)
                           (\<lambda>c. c\<lparr>roleArn := Some role, name_conn := n\<rparr>) = Inr (c, st')"
      using assms(1) by (auto simp: persist_def split: sum.splits)
    then have "c = conn\<lparr>roleArn := Some role, name_conn := n\<rparr>"
      unfolding update_conn_def find_id_row [OF assms(2,3)] by (auto split: if_splits)
    then show ?thesis using assms(4) by simp
  next
    case (Some ex)
    then have e: "?ex = Some ex" by (auto split: option.splits if_splits)
    have "c = ex" using assms(1) Some
      by (auto simp: persist_def split: if_splits sum.splits)
    then show ?thesis using findFirst_Some [OF e] by simp
  qed
qed

lemma verify_role_cases:
  "(fst (snd (verify_role w uid role nm cid st)) = st
          \<and> (\<exists>e d. body (fst (verify_role w uid role nm cid st)) = ErrorBody e d))
       \<or> (\<exists>conn st1. resolve_target w uid cid st = Inr (conn, st1)
            \<and> ((fst (snd (verify_role w uid role nm cid st)) = st1
                 \<and> (\<exists>e d. body (fst (verify_role w uid role nm cid st)) = ErrorBody e d))
                \<or> (\<exists>c. persist w uid role nm conn st1
                        = Inr (c, fst (snd (verify_role w uid role nm cid st)))
                      \<and> fst (verify_role w uid role nm cid st) = json 200 (verified_body c))))"
  unfolding verify_role_def
  by (auto simp: json_def internal_error_def split: sum.splits prod.splits)

lemma verify_cases_user:
  assumes "truthy (session_user w) = Some uid"
  shows "(fst (snd (verify_POST w request st)) = st
          \<and> (\<exists>e d. body (fst (verify_POST w request st)) = ErrorBody e d))
       \<or> (\<exists>role nm cid conn st1. resolve_target w uid cid st = Inr (conn, st1)
            \<and> ((fst (snd (verify_POST w request st)) = st1
                 \<and> (\<exists>e d. body (fst (verify_POST w request st)) = ErrorBody e d))
                \<or> (\<exists>c. persist w uid role nm conn st1
                        = Inr (c, fst (snd (verify_POST w request st)))
                      \<and> fst (verify_POST w request st) = json 200 (verified_body c))))"
proof -
  from verify_POST_cases [of w request st] show ?thesis
  proof
    assume a: "verify_POST w request st = (fst (verify_POST w request st), st, [])
            \<and> (\<exists>e d. body (fst (verify_POST w request st)) = ErrorBody e d)
            \<and> status (fst (verify_POST w request st)) \<in> {400, 401, 500}"
    then have "fst (snd (verify_POST w request st)) = st" by (metis fst_conv snd_conv)
    with a show ?thesis by blast
  next
    assume "\<exists>uid parsed role.
         truthy (session_user w) = Some uid \<and> request = Parsed parsed \<and> parsed \<noteq> JNull
         \<and> member parsed ''roleArn'' = Some (JString role)
         \<and> verify_POST w request st
             = verify_role w uid role (member parsed ''name'') (member parsed ''connectionId'') st"
    then obtain uid' parsed role where
      h: "truthy (session_user w) = Some uid'"
         "verify_POST w request st
            = verify_role w uid' role (member parsed ''name'') (member parsed ''connectionId'') st"
      by blast
    from h(1) assms have "uid' = uid" by simp
    with h(2) show ?thesis
      using verify_role_cases [of w uid role "member parsed ''name''"
          "member parsed ''connectionId''" st]
      by metis
  qed
qed

text \<open>
  Verify leaves the rows of other users where they are, and the row it answers with
  belongs to the user.
\<close>

lemma verify_foreign_rows:
  assumes "distinct (map id_conn st)" "truthy (session_user w) = Some uid"
  shows "(\<forall>r\<in>set st. userId r \<noteq> uid \<longrightarrow> r \<in> set (fst (snd (verify_POST w request st))))
         \<and> (\<forall>pc msg. body (fst (verify_POST w request st)) = VerifyBody pc msg
               \<longrightarrow> (\<exists>c\<in>set (fst (snd (verify_POST w request st))).
                      userId c = uid \<and> pc_id pc = id_conn c)
                   \<and> distinct (map id_conn (fst (snd (verify_POST w request st)))))"
proof -
  let ?after = "fst (snd (verify_POST w request st))"
  let ?resp = "fst (verify_POST w request st)"
  from verify_cases_user [OF assms(2), of request st] consider
    (same) e d where "?after = st" "body ?resp = ErrorBody e d"
    | (resolved) cid conn st1 e d where
        "resolve_target w uid cid st = Inr (conn, st1)" "?after = st1"
        "body ?resp = ErrorBody e d"
    | (persisted) role nm cid conn st1 c where
        "resolve_target w uid cid st = Inr (conn, st1)"
        "persist w uid role nm conn st1 = Inr (c, ?after)"
        "?resp = json 200 (verified_body c)"
    by blast
  then show ?thesis
  proof cases
    case same
    then show ?thesis by simp
  next
    case resolved
    from resolve_then_persist [OF assms(1) resolved(1)] resolved(2,3)
    show ?thesis by auto
  next
    case persisted
    from resolve_then_persist [OF assms(1) persisted(1)] have
      r1: "evolves st st1" "set st \<subseteq> set st1" "conn \<in> set st1"
      by blast+
    have d1: "distinct (map id_conn st1)" using r1(1) by (rule evolves_ids)
    have own: "userId conn = uid" using resolve_target_Inr [OF persisted(1)] by simp
    have keep: "r \<in> set ?after" if "r \<in> set st" "userId r \<noteq> uid" for r
    proof -
      have rin: "r \<in> set st1" using that(1) r1(2) by blast
      have "id_conn r \<noteq> id_conn conn"
        using same_id_same_row [OF d1 rin r1(3)] own that(2) by auto
      from persist_keeps_others [OF persisted(2) rin this] show ?thesis .
    qed
    have cown: "userId c = uid" using persist_owner [OF persisted(2) d1 r1(3) own] .
    have cin: "c \<in> set ?after" using persist_result [OF persisted(2)] by simp
    have da: "distinct (map id_conn ?after)"
      using persist_evolves [OF d1 r1(3) persisted(2)] evolves_ids by blast
    have "\<forall>pc msg. body ?resp = VerifyBody pc msg
           \<longrightarrow> (\<exists>c\<in>set ?after. userId c = uid \<and> pc_id pc = id_conn c)
               \<and> distinct (map id_conn ?after)"
      unfolding persisted(3) using cown cin da by (auto simp: json_def verified_body_def)
    with keep show ?thesis by blast
  qed
qed

lemma verify_foreign_connectionId:
  assumes "distinct (map id_conn st)" "truthy (session_user w) = Some uid"
    and "r \<in> set st" "userId r \<noteq> uid" "id_conn r \<noteq> []"
    and "m ''connectionId'' = Some (JString (id_conn r))"
  shows "verify_POST w (Parsed (JObject m)) st
         = verify_POST w (Parsed (JObject (m(''connectionId'' := None)))) st"
proof -
  let ?m' = "m(''connectionId'' := None)"
  have byid: "find_by_id w uid (JString (id_conn r)) st = Inr None"
    using foreign_id_lookup [OF assms(1,3,4)] .
  have res: "resolve_target w uid (member (JObject ?m') ''connectionId'') st
             = resolve_target w uid (member (JObject m) ''connectionId'') st"
    unfolding resolve_target_def using assms(5,6) byid
    by (simp add: truthy_json_def member_def)
  have f: "member (JObject ?m') ''roleArn'' = member (JObject m) ''roleArn''"
    "member (JObject ?m') ''name'' = member (JObject m) ''name''"
    by (simp_all add: member_def)
  have vr: "verify_role w uid role (member (JObject m) ''name'')
              (member (JObject ?m') ''connectionId'') st
            = verify_role w uid role (member (JObject m) ''name'')
                (member (JObject m) ''connectionId'') st" for role
    unfolding verify_role_def res ..
  have nn: "(JObject ?m' = JNull) = False" "(JObject m = JNull) = False" by simp_all
  have "verify_POST w (Parsed (JObject ?m')) st = verify_POST w (Parsed (JObject m)) st"
    unfolding verify_POST_def request_body.case assms(2) option.case f nn vr ..
  then show ?thesis by simp
qed

lemma verify_scoped_trace:
  assumes "truthy (session_user w) = Some uid"
    and "StsAssumeRole cmd \<in> set (snd (snd (verify_POST w request st)))"
  shows "\<exists>cid c st1. resolve_target w uid cid st = Inr (c, st1) \<and> c \<in> set st1
           \<and> userId c = uid \<and> ExternalId cmd = externalId c"
proof -
  from verify_trace [OF assms(2)] obtain uid' parsed role conn st1 where
    h: "truthy (session_user w) = Some uid'"
       "resolve_target w uid' (member parsed ''connectionId'') st = Inr (conn, st1)"
       "StsAssumeRole cmd \<in> set (snd (assumeRole w (Some role) (externalId conn)))"
    by blast
  from h(1) assms(1) have u: "uid' = uid" by simp
  from resolve_target_Inr [OF h(2)] assumeRole_trace [OF h(3)] h(2) u
  show ?thesis by blast
qed

text \<open>
  C9: every lookup of a connection returns a row of the signed-in user, whether it is
  made by a submitted id or by default (the most recent row, the pending row, the row
  for a role): the S3 routes fetch, assume the role of and answer with rows of the user
  only; resolution in verify returns a row of the user; verify passes the External ID
  of a row of the user and answers with a row of the user; bootstrap answers with a row
  of the user. When the user names the id of a row that belongs to another user (ids
  being the primary key), the buckets, objects and presigned-URL routes answer 404 as
  for an id that does not exist, with no provider call; verify behaves as if the
  request had named no connection at all, leaves the other user's row in the table as
  it was, and never answers with that row's id.
\<close>

theorem lookups_scoped_by_user:
  assumes "distinct (map id_conn st)" "truthy (session_user w) = Some uid"
  shows "(\<forall>cid c. fetch_connection w uid cid st = Inr (Some c) \<longrightarrow> c \<in> set st \<and> userId c = uid)
       \<and> (\<forall>cid c st1. resolve_target w uid cid st = Inr (c, st1)
             \<longrightarrow> c \<in> set st1 \<and> userId c = uid)
       \<and> (\<forall>cmd. StsAssumeRole cmd \<in> set (snd (snd (buckets_GET w cid st)))
                 \<or> StsAssumeRole cmd \<in> set (snd (snd (objects_GET w q st)))
                 \<or> StsAssumeRole cmd \<in> set (snd (snd (presign_POST w rq st)))
             \<longrightarrow> (\<exists>c\<in>set st. userId c = uid \<and> ExternalId cmd = externalId c
                     \<and> RoleArn cmd = roleArn c))
       \<and> (\<forall>bs i n ro. body (fst (buckets_GET w cid st)) = BucketsBody bs i n ro
             \<longrightarrow> (\<exists>c\<in>set st. userId c = uid \<and> id_conn c = i \<and> name_conn c = n
                     \<and> roleArn c = Some ro))
       \<and> (\<forall>b p os t k i n. body (fst (objects_GET w q st)) = ObjectsBody b p os t k i n
             \<longrightarrow> (\<exists>c\<in>set st. userId c = uid \<and> id_conn c = i \<and> name_conn c = n))
       \<and> (\<forall>i e. body (fst (bootstrap_GET w st)) = BootstrapBody i e
             \<longrightarrow> (\<exists>c\<in>set (fst (snd (bootstrap_GET w st))).
                    userId c = uid \<and> id_conn c = i \<and> externalId c = e))
       \<and> (\<forall>cmd. StsAssumeRole cmd \<in> set (snd (snd (verify_POST w request st)))
             \<longrightarrow> (\<exists>cid c st1. resolve_target w uid cid st = Inr (c, st1) \<and> c \<in> set st1
                     \<and> userId c = uid \<and> ExternalId cmd = externalId c))
       \<and> (\<forall>pc msg. body (fst (verify_POST w request st)) = VerifyBody pc msg
             \<longrightarrow> (\<exists>c\<in>set (fst (snd (verify_POST w request st))).
                    userId c = uid \<and> pc_id pc = id_conn c))
       \<and> (\<forall>r\<in>set st. userId r \<noteq> uid \<and> id_conn r \<noteq> [] \<longrightarrow>
             buckets_GET w (Some (id_conn r)) st = (no_connection, st, [])
           \<and> (truthy (q_bucket q) \<noteq> None \<and> q_connectionId q = Some (id_conn r)
                \<longrightarrow> objects_GET w q st = (no_connection, st, []))
           \<and> (\<forall>parsed. parsed \<noteq> JNull
                  \<and> truthy_json (member parsed ''bucket'') \<noteq> None
                  \<and> truthy_json (member parsed ''key'') \<noteq> None
                  \<and> member parsed ''connectionId'' = Some (JString (id_conn r))
                \<longrightarrow> presign_POST w (Parsed parsed) st = (no_connection, st, []))
           \<and> (\<forall>m. m ''connectionId'' = Some (JString (id_conn r))
                \<longrightarrow> verify_POST w (Parsed (JObject m)) st
                    = verify_POST w (Parsed (JObject (m(''connectionId'' := None)))) st)
           \<and> r \<in> set (fst (snd (verify_POST w request st)))
           \<and> (\<forall>pc msg. body (fst (verify_POST w request st)) = VerifyBody pc msg
                 \<longrightarrow> pc_id pc \<noteq> id_conn r))"
proof -
  let ?after = "fst (snd (verify_POST w request st))"
  have g1: "\<forall>cid c. fetch_connection w uid cid st = Inr (Some c) \<longrightarrow> c \<in> set st \<and> userId c = uid"
    using fetch_connection_Some by blast
  have g2: "\<forall>cid c st1. resolve_target w uid cid st = Inr (c, st1)
             \<longrightarrow> c \<in> set st1 \<and> userId c = uid"
    using resolve_target_Inr by blast
  have g3: "\<forall>cmd. StsAssumeRole cmd \<in> set (snd (snd (buckets_GET w cid st)))
                 \<or> StsAssumeRole cmd \<in> set (snd (snd (objects_GET w q st)))
                 \<or> StsAssumeRole cmd \<in> set (snd (snd (presign_POST w rq st)))
             \<longrightarrow> (\<exists>c\<in>set st. userId c = uid \<and> ExternalId cmd = externalId c
                     \<and> RoleArn cmd = roleArn c)"
  proof (intro allI impI)
    fix cmd
    assume "StsAssumeRole cmd \<in> set (snd (snd (buckets_GET w cid st)))
            \<or> StsAssumeRole cmd \<in> set (snd (snd (objects_GET w q st)))
            \<or> StsAssumeRole cmd \<in> set (snd (snd (presign_POST w rq st)))"
    then consider "StsAssumeRole cmd \<in> set (snd (snd (buckets_GET w cid st)))"
      | "StsAssumeRole cmd \<in> set (snd (snd (objects_GET w q st)))"
      | "StsAssumeRole cmd \<in> set (snd (snd (presign_POST w rq st)))"
      by blast
    then show "\<exists>c\<in>set st. userId c = uid \<and> ExternalId cmd = externalId c
                 \<and> RoleArn cmd = roleArn c"
    proof cases
      case 1
      then show ?thesis
        using conjunct1 [OF buckets_scoped [OF assms(2), of cmd cid st]] by blast
    next
      case 2
      then show ?thesis
        using conjunct1 [OF objects_scoped [OF assms(2), of cmd q st]] by blast
    next
      case 3
      then show ?thesis using presign_scoped [OF assms(2), of cmd rq st] by blast
    qed
  qed
  have g4: "\<forall>bs i n ro. body (fst (buckets_GET w cid st)) = BucketsBody bs i n ro
             \<longrightarrow> (\<exists>c\<in>set st. userId c = uid \<and> id_conn c = i \<and> name_conn c = n
                     \<and> roleArn c = Some ro)"
    using conjunct2 [OF buckets_scoped [OF assms(2), of _ cid st]] by blast
  have g5: "\<forall>b p os t k i n. body (fst (objects_GET w q st)) = ObjectsBody b p os t k i n
             \<longrightarrow> (\<exists>c\<in>set st. userId c = uid \<and> id_conn c = i \<and> name_conn c = n)"
    using conjunct2 [OF objects_scoped [OF assms(2), of _ q st]] by blast
  have g6: "\<forall>i e. body (fst (bootstrap_GET w st)) = BootstrapBody i e
             \<longrightarrow> (\<exists>c\<in>set (fst (snd (bootstrap_GET w st))).
                    userId c = uid \<and> id_conn c = i \<and> externalId c = e)"
    using bootstrap_scoped [OF assms(2)] by blast
  have g7: "\<forall>cmd. StsAssumeRole cmd \<in> set (snd (snd (verify_POST w request st)))
             \<longrightarrow> (\<exists>cid c st1. resolve_target w uid cid st = Inr (c, st1) \<and> c \<in> set st1
                     \<and> userId c = uid \<and> ExternalId cmd = externalId c)"
    using verify_scoped_trace [OF assms(2)] by blast
  note vf = verify_foreign_rows [OF assms, of request]
  have g8: "\<forall>pc msg. body (fst (verify_POST w request st)) = VerifyBody pc msg
             \<longrightarrow> (\<exists>c\<in>set ?after. userId c = uid \<and> pc_id pc = id_conn c)"
    using vf by blast
  let ?X = "\<lambda>r. buckets_GET w (Some (id_conn r)) st = (no_connection, st, [])
           \<and> (truthy (q_bucket q) \<noteq> None \<and> q_connectionId q = Some (id_conn r)
                \<longrightarrow> objects_GET w q st = (no_connection, st, []))
           \<and> (\<forall>parsed. parsed \<noteq> JNull
                  \<and> truthy_json (member parsed ''bucket'') \<noteq> None
                  \<and> truthy_json (member parsed ''key'') \<noteq> None
                  \<and> member parsed ''connectionId'' = Some (JString (id_conn r))
                \<longrightarrow> presign_POST w (Parsed parsed) st = (no_connection, st, []))
           \<and> (\<forall>m. m ''connectionId'' = Some (JString (id_conn r))
                \<longrightarrow> verify_POST w (Parsed (JObject m)) st
                    = verify_POST w (Parsed (JObject (m(''connectionId'' := None)))) st)
           \<and> r \<in> set ?after
           \<and> (\<forall>pc msg. body (fst (verify_POST w request st)) = VerifyBody pc msg
                 \<longrightarrow> pc_id pc \<noteq> id_conn r)"
  have foreign: "?X r"
    if r: "r \<in> set st" "userId r \<noteq> uid" "id_conn r \<noteq> []" for r
  proof -
    have nf: "fetch_connection w uid (Some (JString (id_conn r))) st = Inr None"
      using foreign_id_lookup [OF assms(1) r(1,2)] r(3)
      by (simp add: fetch_connection_def truthy_json_def)
    have b: "buckets_GET w (Some (id_conn r)) st = (no_connection, st, [])"
      using assms(2) nf by (simp add: buckets_GET_def)
    have ob: "objects_GET w q st = (no_connection, st, [])"
      if "truthy (q_bucket q) \<noteq> None" "q_connectionId q = Some (id_conn r)"
      using that assms(2) nf by (auto simp add: objects_GET_def Let_def)
    have pr: "presign_POST w (Parsed parsed) st = (no_connection, st, [])"
      if "parsed \<noteq> JNull" "truthy_json (member parsed ''bucket'') \<noteq> None"
        "truthy_json (member parsed ''key'') \<noteq> None"
        "member parsed ''connectionId'' = Some (JString (id_conn r))" for parsed
      using that assms(2) nf by (auto simp add: presign_POST_def)
    have v: "verify_POST w (Parsed (JObject m)) st
             = verify_POST w (Parsed (JObject (m(''connectionId'' := None)))) st"
      if "m ''connectionId'' = Some (JString (id_conn r))" for m
      using verify_foreign_connectionId [of st w uid r m] assms r that by blast
    have keep: "r \<in> set ?after" using vf r(1,2) by blast
    have notr: "pc_id pc \<noteq> id_conn r"
      if vb: "body (fst (verify_POST w request st)) = VerifyBody pc msg" for pc msg
    proof -
      from vf vb obtain c where
        c: "c \<in> set ?after" "userId c = uid" "pc_id pc = id_conn c"
        and da: "distinct (map id_conn ?after)"
        by blast
      from same_id_same_row [OF da c(1) keep] c(2) r(2) have "id_conn c \<noteq> id_conn r" by auto
      with c(3) show ?thesis by simp
    qed
    from b ob pr v keep notr show ?thesis by blast
  qed
  have F: "\<forall>r\<in>set st. userId r \<noteq> uid \<and> id_conn r \<noteq> [] \<longrightarrow> ?X r"
  proof (intro ballI impI)
    fix r
    assume a: "r \<in> set st" and b: "userId r \<noteq> uid \<and> id_conn r \<noteq> []"
    show "?X r" by (rule foreign [OF a conjunct1 [OF b] conjunct2 [OF b]])
  qed
  show ?thesis
    by (rule conjI [OF g1 conjI [OF g2 conjI [OF g3 conjI [OF g4 conjI [OF g5
          conjI [OF g6 conjI [OF g7 conjI [OF g8 F]]]]]]]])
qed


theorem lookups_scoped_by_user_witness:
  "distinct (map id_conn sample_store)
   \<and> truthy (session_user alice_world) = Some ''alice''
   \<and> fetch_connection alice_world ''alice'' None sample_store = Inr (Some alice_pending)
   \<and> alice_pending \<in> set sample_store
   \<and> userId alice_pending = ''alice''
   \<and> bob_verified \<in> set sample_store
   \<and> userId bob_verified \<noteq> ''alice''
   \<and> id_conn bob_verified = ''b1''
   \<and> buckets_GET alice_world (Some ''b1'') sample_store = (no_connection, sample_store, [])
   \<and> truthy (q_bucket \<lparr>q_bucket = Some ''photos'', q_prefix = None, q_maxKeys = None,
                        q_connectionId = Some ''b1''\<rparr>) = Some ''photos''
   \<and> objects_GET alice_world
        \<lparr>q_bucket = Some ''photos'', q_prefix = None, q_maxKeys = None,
         q_connectionId = Some ''b1''\<rparr> sample_store
     = (no_connection, sample_store, [])
   \<and> verify_POST alice_world
        (Parsed (JObject [''roleArn'' \<mapsto> JString ''arn:aws:iam::1:role/Demo'',
                          ''connectionId'' \<mapsto> JString ''b1''])) sample_store
     = verify_POST alice_world
         (Parsed (JObject ([''roleArn'' \<mapsto> JString ''arn:aws:iam::1:role/Demo'',
                            ''connectionId'' \<mapsto> JString ''b1''](''connectionId'' := None))))
         sample_store
   \<and> bob_verified
     \<in> set (fst (snd (verify_POST alice_world
                         (Parsed (JObject [''roleArn'' \<mapsto> JString ''arn:aws:iam::1:role/Demo'',
                                           ''connectionId'' \<mapsto> JString ''b1'']))
                         sample_store)))"
proof -
  let ?q = "\<lparr>q_bucket = Some ''photos'', q_prefix = None, q_maxKeys = None,
             q_connectionId = Some ''b1''\<rparr>"
  let ?m = "[''roleArn'' \<mapsto> JString ''arn:aws:iam::1:role/Demo'',
             ''connectionId'' \<mapsto> JString ''b1'']"
  have d: "distinct (map id_conn sample_store)"
    by (simp add: sample_defs)
  have s: "truthy (session_user alice_world) = Some ''alice''"
    by (simp add: alice_world_def truthy_def)
  have fc: "fetch_connection alice_world ''alice'' None sample_store = Inr (Some alice_pending)"
    by (simp add: fetch_connection_def truthy_json_def findFirst_desc_def sample_defs)
  have m: "bob_verified \<in> set sample_store" by (simp add: sample_store_def)
  have u: "userId bob_verified \<noteq> ''alice''" by (simp add: bob_verified_def)
  have i: "id_conn bob_verified = ''b1''" by (simp add: bob_verified_def)
  have n: "id_conn bob_verified \<noteq> []" by (simp add: bob_verified_def)
  have qb: "truthy (q_bucket ?q) = Some ''photos''" by (simp add: truthy_def)
  have qc: "q_connectionId ?q = Some (id_conn bob_verified)" by (simp add: i)
  have rc: "?m ''connectionId'' = Some (JString (id_conn bob_verified))" by (simp add: i)
  note t = lookups_scoped_by_user [OF d s, of None ?q "Parsed JNull" "Parsed (JObject ?m)"]
  from t have "\<forall>cid c. fetch_connection alice_world ''alice'' cid sample_store = Inr (Some c)
                 \<longrightarrow> c \<in> set sample_store \<and> userId c = ''alice''"
    by (rule conjunct1)
  with fc have own: "alice_pending \<in> set sample_store" "userId alice_pending = ''alice''"
    by blast+
  note f = t [THEN conjunct2, THEN conjunct2, THEN conjunct2, THEN conjunct2, THEN conjunct2,
      THEN conjunct2, THEN conjunct2, THEN conjunct2, rule_format, OF m conjI [OF u n]]
  from f have t1: "buckets_GET alice_world (Some (id_conn bob_verified)) sample_store
                   = (no_connection, sample_store, [])"
    by (rule conjunct1)
  from f qb qc have t2: "objects_GET alice_world ?q sample_store = (no_connection, sample_store, [])"
    by simp
  from f rc have t3: "verify_POST alice_world (Parsed (JObject ?m)) sample_store
                      = verify_POST alice_world (Parsed (JObject (?m(''connectionId'' := None))))
                          sample_store"
    by blast
  from f have t4: "bob_verified
                   \<in> set (fst (snd (verify_POST alice_world (Parsed (JObject ?m)) sample_store)))"
    by blast
  from d s fc own m u i t1 qb t2 t3 t4 show ?thesis by simp
qed

end
